theory Spec2Isabelle
  imports Complex_Main "HOL-Library.Word" "HOL-Library.Code_Target_Numeral"
begin

section \<open>Machine integers\<close>

text \<open>
  The C code of \<^verbatim>\<open>bke_ptex.c\<close> computes with \<^verbatim>\<open>int\<close> (32 bits, two's complement) and
  \<^verbatim>\<open>size_t\<close> (64 bits, unsigned).  Values are kept as HOL integers and naturals; the
  wrap-around is written out at every arithmetic operation whose result can leave the
  range.  Signed overflow is undefined behaviour in C; the model takes the
  two's-complement result that the usual targets produce.
\<close>

definition int32_wrap :: "int \<Rightarrow> int" where
  "int32_wrap x = (x + 2 ^ 31) mod 2 ^ 32 - 2 ^ 31"

definition size_t_of_int :: "int \<Rightarrow> nat" where
  "size_t_of_int x = nat (x mod 2 ^ 64)"

definition size_t_mul :: "nat \<Rightarrow> nat \<Rightarrow> nat" where
  "size_t_mul a b = (a * b) mod 2 ^ 64"

section \<open>Texel descriptor\<close>

text \<open>
  \<^verbatim>\<open>MPtexDataType\<close> has the two enumerators the source switches on.  The third
  constructor stands for any other stored value, which falls through the
  \<^verbatim>\<open>switch\<close> statements.
\<close>

datatype MPtexDataType =
    MPTEX_DATA_TYPE_UINT8
  | MPTEX_DATA_TYPE_FLOAT32
  | MPTEX_DATA_TYPE_OTHER

text \<open>
  The structs \<^verbatim>\<open>MPtexTexelInfo\<close> and \<^verbatim>\<open>MPtexLogRes\<close> are declared in a DNA header; the
  source only fixes their size (4 bytes each) and reads the fields through integer
  promotion, so the fields hold the promoted \<^verbatim>\<open>int\<close> values.
\<close>

record MPtexTexelInfo =
  data_type :: MPtexDataType
  num_channels :: int

record MPtexLogRes =
  u :: int
  v :: int

record MPtexRes =
  res_u :: int
  res_v :: int

fun ptex_data_type_num_bytes :: "MPtexDataType \<Rightarrow> int" where
  "ptex_data_type_num_bytes MPTEX_DATA_TYPE_UINT8 = 1"
| "ptex_data_type_num_bytes MPTEX_DATA_TYPE_FLOAT32 = 4"
| "ptex_data_type_num_bytes MPTEX_DATA_TYPE_OTHER = 0"

definition ptex_rlog2_limit :: int where
  "ptex_rlog2_limit = 30"

definition ptex_rlog2_valid :: "int \<Rightarrow> bool" where
  "ptex_rlog2_valid rlog2 \<longleftrightarrow> rlog2 \<ge> 0 \<and> rlog2 \<le> ptex_rlog2_limit"

text \<open>\<^verbatim>\<open>1 << rlog2\<close> on \<^verbatim>\<open>int\<close>; the source asserts \<^verbatim>\<open>ptex_rlog2_valid(rlog2)\<close>.\<close>

definition ptex_res_from_rlog2 :: "int \<Rightarrow> int" where
  "ptex_res_from_rlog2 rlog2 = int32_wrap (2 ^ nat rlog2)"

text \<open>
  The product is an \<^verbatim>\<open>int\<close> product; only its result is converted to \<^verbatim>\<open>size_t\<close>.
\<close>

definition ptex_area_from_logres :: "MPtexLogRes \<Rightarrow> nat" where
  "ptex_area_from_logres logres =
     size_t_of_int (int32_wrap (ptex_res_from_rlog2 (u logres) * ptex_res_from_rlog2 (v logres)))"

definition bke_ptex_res_from_logres :: "MPtexLogRes \<Rightarrow> MPtexRes" where
  "bke_ptex_res_from_logres logres =
     \<lparr>res_u = ptex_res_from_rlog2 (u logres), res_v = ptex_res_from_rlog2 (v logres)\<rparr>"

definition BKE_ptex_bytes_per_texel :: "MPtexTexelInfo \<Rightarrow> nat" where
  "BKE_ptex_bytes_per_texel texel_info =
     size_t_of_int (int32_wrap (ptex_data_type_num_bytes (data_type texel_info) *
                                num_channels texel_info))"

definition BKE_ptex_rect_num_bytes :: "MPtexTexelInfo \<Rightarrow> MPtexLogRes \<Rightarrow> nat" where
  "BKE_ptex_rect_num_bytes texel_info logres =
     size_t_mul (BKE_ptex_bytes_per_texel texel_info) (ptex_area_from_logres logres)"

text \<open>\<^verbatim>\<open>BKE_ptex_texel_info_init\<close>: the channel count is accepted from 0 to 4.\<close>

definition BKE_ptex_texel_info_init :: "MPtexDataType \<Rightarrow> int \<Rightarrow> MPtexTexelInfo option" where
  "BKE_ptex_texel_info_init dt n =
     (if n \<ge> 0 \<and> n \<le> 4 then Some \<lparr>data_type = dt, num_channels = n\<rparr> else None)"

section \<open>Rasters and the mesh\<close>

text \<open>
  A pointer is an address into the store of allocated blocks; \<open>None\<close> is \<^verbatim>\<open>NULL\<close>.
\<close>

type_synonym addr = nat

record MLoopPtex =
  texel_info :: MPtexTexelInfo
  logres :: MPtexLogRes
  rect :: "addr option"
  image :: "addr option"

record CustomDataLayer =
  layer_name :: string
  layer_data :: "MLoopPtex list"

record MPoly =
  loopstart :: int
  totloop :: int

record MLoop =
  e :: int

text \<open>
  The arrays \<^verbatim>\<open>mpoly\<close> and \<^verbatim>\<open>mloop\<close> are lists; their lengths stand for the fields
  \<^verbatim>\<open>totpoly\<close> and \<^verbatim>\<open>totloop\<close> of the mesh.  \<open>ldata\<close> holds the named per-loop Ptex layers
  of the loop custom data.
\<close>

record Mesh =
  totedge :: int
  mpoly :: "MPoly list"
  mloop :: "MLoop list"
  ldata :: "CustomDataLayer list"


definition Mesh_totloop :: "Mesh \<Rightarrow> int" where
  "Mesh_totloop me = int (length (mloop me))"


definition mloop_at :: "Mesh \<Rightarrow> int \<Rightarrow> MLoop option" where
  "mloop_at me i = (if 0 \<le> i \<and> i < Mesh_totloop me then Some (mloop me ! nat i) else None)"


section \<open>Mesh edge-adjacency index\<close>

definition BKE_PTEX_NO_ADJ_POLY :: int where
  "BKE_PTEX_NO_ADJ_POLY = - 1"

definition BKE_PTEX_MAX_ADJ_POLYS :: nat where
  "BKE_PTEX_MAX_ADJ_POLYS = 2"

record BKEPtexEdgeAdj =
  polys :: "int list"

definition adj_at :: "BKEPtexEdgeAdj list \<Rightarrow> int \<Rightarrow> BKEPtexEdgeAdj option" where
  "adj_at adj i = (if 0 \<le> i \<and> i < int (length adj) then Some (adj ! nat i) else None)"

text \<open>
  \<^verbatim>\<open>bke_ptex_edge_adj_alloc\<close>: one record per edge, every slot empty.  A failing
  allocation is not modelled.
\<close>

definition bke_ptex_edge_adj_alloc :: "Mesh \<Rightarrow> BKEPtexEdgeAdj list" where
  "bke_ptex_edge_adj_alloc me =
     replicate (nat (totedge me))
       \<lparr>polys = replicate BKE_PTEX_MAX_ADJ_POLYS BKE_PTEX_NO_ADJ_POLY\<rparr>"

text \<open>
  The innermost loop of \<^verbatim>\<open>bke_ptex_edge_adj_init\<close> over the slots \<^verbatim>\<open>j\<close>: the first
  empty slot takes the polygon index and the loop breaks; with no empty slot nothing
  is written.
\<close>

fun adj_polys_add :: "int list \<Rightarrow> int \<Rightarrow> int list" where
  "adj_polys_add [] poly_index = []"
| "adj_polys_add (x # xs) poly_index =
     (if x = BKE_PTEX_NO_ADJ_POLY then poly_index # xs
      else x # adj_polys_add xs poly_index)"

text \<open>
  The body of the loop over \<^verbatim>\<open>i\<close> for the loop index \<^verbatim>\<open>li\<close>.  The source asserts
  \<^verbatim>\<open>ei >= 0 && ei < me->totedge\<close>; a failed assertion is \<open>None\<close>.
\<close>

definition edge_adj_add_loop ::
  "Mesh \<Rightarrow> int \<Rightarrow> BKEPtexEdgeAdj list \<Rightarrow> int \<Rightarrow> BKEPtexEdgeAdj list option" where
  "edge_adj_add_loop me poly_index adj li =
     (case mloop_at me li of
        None \<Rightarrow> None
      | Some l \<Rightarrow>
          let ei = e l in
          if ei \<ge> 0 \<and> ei < totedge me then
            (case adj_at adj ei of
               None \<Rightarrow> None
             | Some ea \<Rightarrow>
                 Some (adj[nat ei := ea\<lparr>polys := adj_polys_add (polys ea) poly_index\<rparr>]))
          else None)"

text \<open>The loop over the offsets \<^verbatim>\<open>i\<close> of one polygon.\<close>

fun edge_adj_init_loops ::
  "Mesh \<Rightarrow> int \<Rightarrow> MPoly \<Rightarrow> nat list \<Rightarrow> BKEPtexEdgeAdj list \<Rightarrow> BKEPtexEdgeAdj list option"
where
  "edge_adj_init_loops me poly_index p [] adj = Some adj"
| "edge_adj_init_loops me poly_index p (i # is) adj =
     (case edge_adj_add_loop me poly_index adj (loopstart p + int i) of
        None \<Rightarrow> None
      | Some adj' \<Rightarrow> edge_adj_init_loops me poly_index p is adj')"

text \<open>The loop over the polygons, in increasing index order.\<close>

fun edge_adj_init_polys ::
  "Mesh \<Rightarrow> (nat \<times> MPoly) list \<Rightarrow> BKEPtexEdgeAdj list \<Rightarrow> BKEPtexEdgeAdj list option"
where
  "edge_adj_init_polys me [] adj = Some adj"
| "edge_adj_init_polys me ((poly_index, p) # ps) adj =
     (case edge_adj_init_loops me (int poly_index) p [0 ..< nat (totloop p)] adj of
        None \<Rightarrow> None
      | Some adj' \<Rightarrow> edge_adj_init_polys me ps adj')"

definition bke_ptex_edge_adj_init :: "Mesh \<Rightarrow> BKEPtexEdgeAdj list option" where
  "bke_ptex_edge_adj_init me =
     edge_adj_init_polys me (enumerate 0 (mpoly me)) (bke_ptex_edge_adj_alloc me)"

text \<open>
  \<^verbatim>\<open>bke_ptex_edge_adj_other_poly\<close>: the loop over the slots \<^verbatim>\<open>i\<close> returns the
  complementary slot of the first slot that holds \<^verbatim>\<open>poly_index\<close>.
\<close>

fun other_poly_scan :: "int list \<Rightarrow> int \<Rightarrow> nat list \<Rightarrow> int" where
  "other_poly_scan ps poly_index [] = BKE_PTEX_NO_ADJ_POLY"
| "other_poly_scan ps poly_index (i # is) =
     (if ps ! i = poly_index then ps ! (BKE_PTEX_MAX_ADJ_POLYS - i - 1)
      else other_poly_scan ps poly_index is)"

definition bke_ptex_edge_adj_other_poly :: "BKEPtexEdgeAdj option \<Rightarrow> int \<Rightarrow> int" where
  "bke_ptex_edge_adj_other_poly edge_adj poly_index =
     (case edge_adj of
        None \<Rightarrow> BKE_PTEX_NO_ADJ_POLY
      | Some ea \<Rightarrow> other_poly_scan (polys ea) poly_index [0 ..< BKE_PTEX_MAX_ADJ_POLYS])"

section \<open>Border filter: adjacent edge\<close>





section \<open>Well-formed meshes and the scan order of the adjacency index\<close>

text \<open>
  A well-formed mesh: every polygon's loop range lies inside the loop array and every
  loop names an edge of the mesh.
\<close>

definition mesh_valid :: "Mesh \<Rightarrow> bool" where
  "mesh_valid me \<longleftrightarrow>
     0 \<le> totedge me
     \<and> list_all (\<lambda>p. 0 \<le> loopstart p \<and> 0 \<le> totloop p
                      \<and> loopstart p + totloop p \<le> Mesh_totloop me) (mpoly me)
     \<and> list_all (\<lambda>l. 0 \<le> e l \<and> e l < totedge me) (mloop me)"

text \<open>
  The pairs (polygon index, loop index) in the order the two nested loops of
  \<^verbatim>\<open>bke_ptex_edge_adj_init\<close> visit them, and the polygons that reference an edge, in that
  order.
\<close>

definition poly_scan :: "(nat \<times> MPoly) \<Rightarrow> (int \<times> int) list" where
  "poly_scan ip = map (\<lambda>i. (int (fst ip), loopstart (snd ip) + int i)) [0 ..< nat (totloop (snd ip))]"

definition loop_scan :: "Mesh \<Rightarrow> (int \<times> int) list" where
  "loop_scan me = concat (map poly_scan (enumerate 0 (mpoly me)))"

definition refs_of :: "Mesh \<Rightarrow> (int \<times> int) list \<Rightarrow> int \<Rightarrow> int list" where
  "refs_of me evs ei = map fst (filter (\<lambda>ev. e (mloop me ! nat (snd ev)) = ei) evs)"

definition edge_refs :: "Mesh \<Rightarrow> int \<Rightarrow> int list" where
  "edge_refs me ei = refs_of me (loop_scan me) ei"

definition adj_pad :: "nat \<Rightarrow> int list \<Rightarrow> int list" where
  "adj_pad n rs = take n rs @ replicate (n - length rs) BKE_PTEX_NO_ADJ_POLY"

fun edge_adj_run :: "Mesh \<Rightarrow> (int \<times> int) list \<Rightarrow> BKEPtexEdgeAdj list \<Rightarrow> BKEPtexEdgeAdj list option" where
  "edge_adj_run me [] adj = Some adj"
| "edge_adj_run me (ev # evs) adj =
     (case edge_adj_add_loop me (fst ev) adj (snd ev) of
        None \<Rightarrow> None
      | Some adj' \<Rightarrow> edge_adj_run me evs adj')"

definition adj_inv :: "Mesh \<Rightarrow> nat \<Rightarrow> (int \<times> int) list \<Rightarrow> BKEPtexEdgeAdj list \<Rightarrow> bool" where
  "adj_inv me n evs adj \<longleftrightarrow>
     length adj = nat (totedge me)
     \<and> (\<forall>ei. 0 \<le> ei \<and> ei < totedge me \<longrightarrow> polys (adj ! nat ei) = adj_pad n (refs_of me evs ei))"

definition evs_ok :: "Mesh \<Rightarrow> (int \<times> int) list \<Rightarrow> bool" where
  "evs_ok me evs \<longleftrightarrow>
     (\<forall>ev \<in> set evs. fst ev \<noteq> BKE_PTEX_NO_ADJ_POLY \<and> 0 \<le> snd ev \<and> snd ev < Mesh_totloop me)"

definition poly_edges :: "Mesh \<Rightarrow> MPoly \<Rightarrow> int list" where
  "poly_edges me p = map (\<lambda>i. e (mloop me ! nat (loopstart p + int i))) [0 ..< nat (totloop p)]"

definition polys_on_edge :: "Mesh \<Rightarrow> int \<Rightarrow> int list" where
  "polys_on_edge me ei =
     map (\<lambda>ip. int (fst ip)) (filter (\<lambda>ip. ei \<in> set (poly_edges me (snd ip))) (enumerate 0 (mpoly me)))"

definition mesh_simple :: "Mesh \<Rightarrow> bool" where
  "mesh_simple me \<longleftrightarrow> list_all (\<lambda>p. distinct (poly_edges me p)) (mpoly me)"

text \<open>Three triangles around the common edge 2.\<close>

definition fan_mesh :: Mesh where
  "fan_mesh = \<lparr>totedge = 7,
               mpoly = [\<lparr>loopstart = 0, totloop = 3\<rparr>, \<lparr>loopstart = 3, totloop = 3\<rparr>,
                        \<lparr>loopstart = 6, totloop = 3\<rparr>],
               mloop = [\<lparr>e = 0\<rparr>, \<lparr>e = 1\<rparr>, \<lparr>e = 2\<rparr>, \<lparr>e = 2\<rparr>, \<lparr>e = 3\<rparr>, \<lparr>e = 4\<rparr>,
                        \<lparr>e = 2\<rparr>, \<lparr>e = 5\<rparr>, \<lparr>e = 6\<rparr>],
               ldata = []\<rparr>"

text \<open>
  Two triangles on the common edge 0; the first one has two of its loops on that edge.
\<close>

definition pinched_mesh :: Mesh where
  "pinched_mesh = \<lparr>totedge = 4,
                   mpoly = [\<lparr>loopstart = 0, totloop = 3\<rparr>, \<lparr>loopstart = 3, totloop = 3\<rparr>],
                   mloop = [\<lparr>e = 0\<rparr>, \<lparr>e = 0\<rparr>, \<lparr>e = 1\<rparr>, \<lparr>e = 0\<rparr>, \<lparr>e = 2\<rparr>, \<lparr>e = 3\<rparr>],
                   ldata = []\<rparr>"

section \<open>Well-formed adjacency arguments of the border filter\<close>






section \<open>Raster store\<close>

text \<open>
  The store of allocated blocks.  A byte of a block is uninitialised, an 8-bit value, or
  one of the four bytes of a stored float; float values are taken as real numbers and the
  rounding of float arithmetic is not modelled.  The address of a block is its index in
  \<open>blocks\<close>; a freed block is \<open>None\<close>.  \<open>avail\<close> is the number of bytes the allocator
  can still hand out.
\<close>

datatype mbyte = Undef | U8 "8 word" | F32 real nat

record heap =
  blocks :: "mbyte list option list"
  avail :: nat

definition block_at :: "heap \<Rightarrow> addr \<Rightarrow> mbyte list option" where
  "block_at h a = (if a < length (blocks h) then blocks h ! a else None)"

definition block_set :: "heap \<Rightarrow> addr \<Rightarrow> mbyte list \<Rightarrow> heap" where
  "block_set h a buf = h\<lparr>blocks := (blocks h)[a := Some buf]\<rparr>"

text \<open>
  Modelled from the spec: \<^verbatim>\<open>MEM_mallocN\<close> and \<^verbatim>\<open>MEM_freeN\<close> belong to the guarded
  allocator, which is not part of the source at hand.  An allocation returns a fresh
  block of the requested size with unspecified contents, or \<^verbatim>\<open>NULL\<close> when the request
  cannot be served; freeing releases the block.
\<close>

definition MEM_mallocN :: "heap \<Rightarrow> nat \<Rightarrow> heap \<times> addr option" where
  "MEM_mallocN h len =
     (if len \<le> avail h then
        (h\<lparr>blocks := blocks h @ [Some (replicate len Undef)], avail := avail h - len\<rparr>,
         Some (length (blocks h)))
      else (h, None))"


definition bke_ptex_texels_malloc ::
  "heap \<Rightarrow> MPtexTexelInfo \<Rightarrow> MPtexLogRes \<Rightarrow> heap \<times> addr option" where
  "bke_ptex_texels_malloc h ti lr = MEM_mallocN h (BKE_ptex_rect_num_bytes ti lr)"

text \<open>
  Modelled from the spec: the macro \<^verbatim>\<open>FTOCHAR\<close> comes from a utility header that is
  not part of the source at hand; it quantises a float in the unit range to a byte by
  rounding to nearest, with clamping.
\<close>

definition FTOCHAR :: "real \<Rightarrow> 8 word" where
  "FTOCHAR val =
     (if val \<le> 0 then 0
      else if val > 1 - (1 / 2) / 255 then 255
      else of_nat (nat \<lfloor>255 * val + 1 / 2\<rfloor>))"

definition float_bytes :: "real \<Rightarrow> mbyte list" where
  "float_bytes x = [F32 x 0, F32 x 1, F32 x 2, F32 x 3]"

text \<open>
  \<^verbatim>\<open>ptex_data_from_float\<close>: the bytes written to the start of \<^verbatim>\<open>dst_v\<close>.  \<open>None\<close> is
  the failed assertion on the data type, and a read past the end of \<^verbatim>\<open>src\<close>.
\<close>

definition ptex_data_from_float :: "real list \<Rightarrow> MPtexDataType \<Rightarrow> nat \<Rightarrow> mbyte list option" where
  "ptex_data_from_float src dt count =
     (if count > length src then None
      else case dt of
        MPTEX_DATA_TYPE_UINT8 \<Rightarrow> Some (map (\<lambda>x. U8 (FTOCHAR x)) (take count src))
      | MPTEX_DATA_TYPE_FLOAT32 \<Rightarrow> Some (concat (map float_bytes (take count src)))
      | MPTEX_DATA_TYPE_OTHER \<Rightarrow> None)"

text \<open>
  \<^verbatim>\<open>memcpy\<close> of \<open>bs\<close> into a block at byte offset \<open>off\<close>; a write past the end of the
  block is \<open>None\<close>.
\<close>

definition mem_write :: "mbyte list \<Rightarrow> nat \<Rightarrow> mbyte list \<Rightarrow> mbyte list option" where
  "mem_write buf off bs =
     (if off + length bs \<le> length buf
      then Some (take off buf @ bs @ drop (off + length bs) buf)
      else None)"

text \<open>
  The loop of \<^verbatim>\<open>bke_loop_ptex_fill\<close> that copies the first texel to the texels
  \<open>i\<close>, \<open>i + 1\<close>, ... below \<open>area\<close>.
\<close>

function fill_copy_loop :: "mbyte list \<Rightarrow> nat \<Rightarrow> nat \<Rightarrow> nat \<Rightarrow> mbyte list option" where
  "fill_copy_loop buf bytes_per_texel i area =
     (if i < area then
        (if bytes_per_texel > length buf then None
         else case mem_write buf (i * bytes_per_texel) (take bytes_per_texel buf) of
                None \<Rightarrow> None
              | Some buf' \<Rightarrow> fill_copy_loop buf' bytes_per_texel (Suc i) area)
      else Some buf)"
  by pat_completeness auto

termination
  by (relation "measure (\<lambda>(buf, bytes_per_texel, i, area). area - i)") auto

text \<open>
  \<^verbatim>\<open>bke_loop_ptex_fill\<close>.  The loop counter is an \<^verbatim>\<open>int\<close>: an area above
  \<^verbatim>\<open>INT_MAX\<close> makes it overflow, which is undefined and \<open>None\<close> here, as is a raster
  pointer that names no block.
\<close>

definition bke_loop_ptex_fill :: "heap \<Rightarrow> MLoopPtex \<Rightarrow> real list \<Rightarrow> (heap \<times> bool) option" where
  "bke_loop_ptex_fill h lp fpixel =
     (let bytes_per_texel = BKE_ptex_bytes_per_texel (texel_info lp);
          area = ptex_area_from_logres (logres lp)
      in case rect lp of
           None \<Rightarrow> Some (h, False)
         | Some dst \<Rightarrow>
             if area < 1 then Some (h, False)
             else if area > 2 ^ 31 - 1 then None
             else
               (case block_at h dst of
                  None \<Rightarrow> None
                | Some buf \<Rightarrow>
               (case ptex_data_from_float fpixel (data_type (texel_info lp))
                       (size_t_of_int (num_channels (texel_info lp))) of
                  None \<Rightarrow> None
                | Some first \<Rightarrow>
               (case mem_write buf 0 first of
                  None \<Rightarrow> None
                | Some buf1 \<Rightarrow>
               (case fill_copy_loop buf1 bytes_per_texel 1 area of
                  None \<Rightarrow> None
                | Some buf2 \<Rightarrow> Some (block_set h dst buf2, True))))))"

definition default_pixel :: "real list" where
  "default_pixel = [0.8, 0.8, 0.8, 1]"

text \<open>
  \<^verbatim>\<open>BKE_loop_ptex_init\<close>.  The three assertions of the source are \<open>None\<close> when they
  fail; the result of the fill is dropped, as in the source.
\<close>

definition BKE_loop_ptex_init ::
  "heap \<Rightarrow> MLoopPtex \<Rightarrow> MPtexTexelInfo \<Rightarrow> MPtexLogRes \<Rightarrow> (heap \<times> MLoopPtex) option" where
  "BKE_loop_ptex_init h loop_ptex ti lr =
     (if \<not> (ptex_rlog2_valid (u lr) \<and> ptex_rlog2_valid (v lr)
             \<and> num_channels ti \<ge> 1 \<and> num_channels ti \<le> 4) then None
      else
        let (h1, r) = bke_ptex_texels_malloc h ti lr;
            lp1 = loop_ptex\<lparr>texel_info := ti, logres := lr, rect := r\<rparr>
        in case bke_loop_ptex_fill h1 lp1 default_pixel of
             None \<Rightarrow> None
           | Some (h2, filled) \<Rightarrow> Some (h2, lp1))"

definition texel_at :: "mbyte list \<Rightarrow> nat \<Rightarrow> nat \<Rightarrow> mbyte list" where
  "texel_at buf bytes_per_texel k = take bytes_per_texel (drop (k * bytes_per_texel) buf)"

text \<open>
  The default colour of \<^verbatim>\<open>BKE_loop_ptex_init\<close> converted to the data type of a texel
  info, as the bytes of one texel: the floats (0.8, 0.8, 0.8, 1.0) themselves for
  float32, the bytes (204, 204, 204, 255) for uint8, cut to the channel count.
\<close>

definition default_texel :: "MPtexTexelInfo \<Rightarrow> mbyte list" where
  "default_texel ti =
     (case data_type ti of
        MPTEX_DATA_TYPE_UINT8 \<Rightarrow> map U8 (take (nat (num_channels ti)) [204, 204, 204, 255])
      | MPTEX_DATA_TYPE_FLOAT32 \<Rightarrow>
          concat (map float_bytes (take (nat (num_channels ti)) [0.8, 0.8, 0.8, 1]))
      | MPTEX_DATA_TYPE_OTHER \<Rightarrow> [])"

text \<open>
  A store with room for 1024 bytes, and the raster record of a zeroed custom-data
  element.
\<close>

definition empty_store :: heap where
  "empty_store = \<lparr>blocks = [], avail = 1024\<rparr>"

definition loop_ptex_zero :: MLoopPtex where
  "loop_ptex_zero = \<lparr>texel_info = \<lparr>data_type = MPTEX_DATA_TYPE_UINT8, num_channels = 0\<rparr>,
          logres = \<lparr>u = 0, v = 0\<rparr>, rect = None, image = None\<rparr>"

section \<open>Image-buffer wrappers and resizing\<close>

text \<open>
  \<^verbatim>\<open>BPXTypeDesc\<close> comes from the BPX wrapper's header; the source switches on two of its
  enumerators, the third constructor stands for the others.  A \<^verbatim>\<open>BPXImageBuf\<close> that
  wraps a raster records what the wrapper was made from.
\<close>

datatype BPXTypeDesc = BPX_TYPE_DESC_UINT8 | BPX_TYPE_DESC_FLOAT | BPX_TYPE_DESC_OTHER

record BPXImageBuf =
  buf_width :: int
  buf_height :: int
  buf_channels :: int
  buf_type :: BPXTypeDesc
  buf_data :: addr

fun bpx_type_desc_to_mptex_data_type :: "BPXTypeDesc \<Rightarrow> MPtexDataType option" where
  "bpx_type_desc_to_mptex_data_type BPX_TYPE_DESC_UINT8 = Some MPTEX_DATA_TYPE_UINT8"
| "bpx_type_desc_to_mptex_data_type BPX_TYPE_DESC_FLOAT = Some MPTEX_DATA_TYPE_FLOAT32"
| "bpx_type_desc_to_mptex_data_type BPX_TYPE_DESC_OTHER = None"

fun bpx_type_desc_from_mptex_data_type :: "MPtexDataType \<Rightarrow> BPXTypeDesc option" where
  "bpx_type_desc_from_mptex_data_type MPTEX_DATA_TYPE_UINT8 = Some BPX_TYPE_DESC_UINT8"
| "bpx_type_desc_from_mptex_data_type MPTEX_DATA_TYPE_FLOAT32 = Some BPX_TYPE_DESC_FLOAT"
| "bpx_type_desc_from_mptex_data_type MPTEX_DATA_TYPE_OTHER = None"

text \<open>
  Modelled from the spec: \<^verbatim>\<open>BPX_image_buf_wrap\<close> belongs to the image-buffer wrapper,
  which is not part of the source at hand; it constructs a wrapper from width, height,
  channels, data type and the raw pointer.
\<close>

definition BPX_image_buf_wrap ::
  "int \<Rightarrow> int \<Rightarrow> int \<Rightarrow> BPXTypeDesc \<Rightarrow> addr \<Rightarrow> BPXImageBuf option" where
  "BPX_image_buf_wrap w h nc td data =
     Some \<lparr>buf_width = w, buf_height = h, buf_channels = nc, buf_type = td, buf_data = data\<rparr>"

definition bpx_image_buf_wrap_ptex_rect ::
  "MPtexLogRes \<Rightarrow> MPtexTexelInfo \<Rightarrow> addr option \<Rightarrow> BPXImageBuf option" where
  "bpx_image_buf_wrap_ptex_rect lr info r =
     (case r of
        None \<Rightarrow> None
      | Some data \<Rightarrow>
          let res = bke_ptex_res_from_logres lr in
          (case bpx_type_desc_from_mptex_data_type (data_type info) of
             None \<Rightarrow> None
           | Some td \<Rightarrow> BPX_image_buf_wrap (res_u res) (res_v res) (num_channels info) td data))"

definition bpx_image_buf_wrap_loop_ptex :: "MLoopPtex \<Rightarrow> BPXImageBuf option" where
  "bpx_image_buf_wrap_loop_ptex loop_ptex =
     bpx_image_buf_wrap_ptex_rect (logres loop_ptex) (texel_info loop_ptex) (rect loop_ptex)"

text \<open>
  Modelled from the spec: \<^verbatim>\<open>BPX_image_buf_resize\<close> belongs to the image-buffer
  wrapper; it resamples the source image into the destination image and reports
  success.  The resampling itself is the parameter \<open>resample\<close>: from the source wrapper,
  the source pixels and the destination wrapper it gives the bytes left in the
  destination and the success flag.  Without both wrappers and the source pixels the
  call fails and writes nothing.
\<close>

type_synonym resampler = "BPXImageBuf \<Rightarrow> mbyte list \<Rightarrow> BPXImageBuf \<Rightarrow> mbyte list \<times> bool"

definition BPX_image_buf_resize ::
  "resampler \<Rightarrow> heap \<Rightarrow> BPXImageBuf option \<Rightarrow> BPXImageBuf option \<Rightarrow> heap \<times> bool" where
  "BPX_image_buf_resize resample h bpx_dst bpx_src =
     (case bpx_dst of
        None \<Rightarrow> (h, False)
      | Some d \<Rightarrow>
     (case bpx_src of
        None \<Rightarrow> (h, False)
      | Some s \<Rightarrow>
     (case block_at h (buf_data s) of
        None \<Rightarrow> (h, False)
      | Some pixels \<Rightarrow>
          (block_set h (buf_data d) (fst (resample s pixels d)), snd (resample s pixels d)))))"






section \<open>Import of a Ptex file\<close>

text \<open>
  Modelled from the spec: \<^verbatim>\<open>is_power_of_2_i\<close> belongs to the math utilities, which are
  not part of the source at hand; it is the power-of-two test on the resolution.
\<close>

definition is_power_of_2_i :: "int \<Rightarrow> bool" where
  "is_power_of_2_i n \<longleftrightarrow> and n (n - 1) = 0"

text \<open>
  \<^verbatim>\<open>(int)(log(n) / M_LN2)\<close>: the source computes the logarithm in double precision; on
  the powers of two up to \<open>2 ^ 30\<close> the result is the exact logarithm, which the model
  takes.  For \<open>n = 0\<close>, which passes the power-of-two test, the conversion of minus
  infinity is undefined; the model gives the least \<^verbatim>\<open>int\<close>.
\<close>

fun ilog2 :: "nat \<Rightarrow> nat" where
  "ilog2 n = (if n < 2 then 0 else Suc (ilog2 (n div 2)))"

declare ilog2.simps [simp del]

definition c_log2 :: "int \<Rightarrow> int" where
  "c_log2 n = (if n \<le> 0 then - (2 ^ 31) else int (ilog2 (nat n)))"

definition BKE_ptex_log_res_from_res :: "int \<Rightarrow> int \<Rightarrow> MPtexLogRes option" where
  "BKE_ptex_log_res_from_res width height =
     (if is_power_of_2_i width \<and> width \<ge> 0 \<and> is_power_of_2_i height \<and> height \<ge> 0
      then Some \<lparr>u = c_log2 width, v = c_log2 height\<rparr>
      else None)"

text \<open>
  Modelled from the spec: the file reader of the BPX wrapper is not part of the source at
  hand.  An opened file gives its type description and channel count (each query can
  fail), and its subimages by index with their resolution; seeking a subimage outside
  the file fails.
\<close>

record BPXImageInput =
  in_type_desc :: "BPXTypeDesc option"
  in_num_channels :: "int option"
  in_subimages :: "(int \<times> int) list"
  in_current :: nat

definition BPX_image_input_seek_subimage ::
  "BPXImageInput \<Rightarrow> int \<Rightarrow> (BPXImageInput \<times> int \<times> int) option" where
  "BPX_image_input_seek_subimage input subimage =
     (if 0 \<le> subimage \<and> subimage < int (length (in_subimages input)) then
        Some (input\<lparr>in_current := nat subimage\<rparr>,
              fst (in_subimages input ! nat subimage),
              snd (in_subimages input ! nat subimage))
      else None)"

text \<open>
  Modelled from the spec: the pixel operations of the BPX wrapper (decoding the current
  subimage into a buffer, the orientation transform, the split of one image into the four
  quadrant buffers, the allocation of an empty buffer) and the custom-data layer
  allocation are not part of the source at hand.  They are parameters: each gives the
  bytes it leaves in its destination, or \<open>None\<close> when it fails.
\<close>

record bpx_ops =
  op_alloc_empty_ok :: bool
  op_read :: "nat \<Rightarrow> BPXImageBuf option \<Rightarrow> mbyte list option"
  op_transform :: "BPXImageBuf \<Rightarrow> mbyte list \<Rightarrow> mbyte list option"
  op_quad_split :: "mbyte list \<Rightarrow> BPXImageBuf list \<Rightarrow> mbyte list list option"
  op_add_layer_ok :: bool

definition BPX_image_input_read ::
  "bpx_ops \<Rightarrow> heap \<Rightarrow> BPXImageBuf \<Rightarrow> BPXImageInput \<Rightarrow> heap \<times> bool" where
  "BPX_image_input_read ops h dst src =
     (case op_read ops (in_current src) (Some dst) of
        None \<Rightarrow> (h, False)
      | Some pixels \<Rightarrow> (block_set h (buf_data dst) pixels, True))"

definition BPX_image_buf_transform :: "bpx_ops \<Rightarrow> heap \<Rightarrow> BPXImageBuf \<Rightarrow> heap \<times> bool" where
  "BPX_image_buf_transform ops h dst =
     (case block_at h (buf_data dst) of
        None \<Rightarrow> (h, False)
      | Some pixels \<Rightarrow>
          (case op_transform ops dst pixels of
             None \<Rightarrow> (h, False)
           | Some pixels' \<Rightarrow> (block_set h (buf_data dst) pixels', True)))"

text \<open>The four quadrant buffers receive their pixels in order.\<close>

fun write_blocks :: "heap \<Rightarrow> BPXImageBuf list \<Rightarrow> mbyte list list \<Rightarrow> heap" where
  "write_blocks h (d # ds) (px # pxs) = write_blocks (block_set h (buf_data d) px) ds pxs"
| "write_blocks h ds pxs = h"

definition BPX_image_buf_quad_split ::
  "bpx_ops \<Rightarrow> heap \<Rightarrow> BPXImageBuf list \<Rightarrow> mbyte list \<Rightarrow> heap \<times> bool" where
  "BPX_image_buf_quad_split ops h dst all_pixels =
     (case op_quad_split ops all_pixels dst of
        None \<Rightarrow> (h, False)
      | Some pxs \<Rightarrow> (write_blocks h dst pxs, True))"

text \<open>
  \<^verbatim>\<open>bke_ptex_texel_info_from_bpx\<close>: \<open>None\<close> is the result false.
\<close>

definition bke_ptex_texel_info_from_bpx :: "BPXImageInput \<Rightarrow> MPtexTexelInfo option" where
  "bke_ptex_texel_info_from_bpx input =
     (case in_type_desc input of
        None \<Rightarrow> None
      | Some type_desc \<Rightarrow>
     (case in_num_channels input of
        None \<Rightarrow> None
      | Some nc \<Rightarrow>
     (case bpx_type_desc_to_mptex_data_type type_desc of
        None \<Rightarrow> None
      | Some dt \<Rightarrow> BKE_ptex_texel_info_init dt nc)))"

text \<open>
  \<^verbatim>\<open>mesh_ptex_import_loop\<close> returns the store, the layer and the result.  \<open>index\<close> is
  the index in the layer of the raster \<^verbatim>\<open>loop_ptex\<close> points to; an index outside the
  layer and a failed assertion of \<^verbatim>\<open>BKE_loop_ptex_init\<close> are \<open>None\<close>.
\<close>

definition mesh_ptex_import_loop ::
  "bpx_ops \<Rightarrow> heap \<Rightarrow> BPXImageInput \<Rightarrow> MLoopPtex list \<Rightarrow> int \<Rightarrow> MPtexTexelInfo \<Rightarrow> int \<Rightarrow> int
     \<Rightarrow> (heap \<times> MLoopPtex list \<times> bool) option" where
  "mesh_ptex_import_loop ops h src layer index ti width height =
     (case BKE_ptex_log_res_from_res width height of
        None \<Rightarrow> Some (h, layer, False)
      | Some lr \<Rightarrow>
          if \<not> (0 \<le> index \<and> index < int (length layer)) then None
          else
     (case BKE_loop_ptex_init h (layer ! nat index) ti lr of
        None \<Rightarrow> None
      | Some (h1, lp) \<Rightarrow>
     (case bpx_image_buf_wrap_loop_ptex lp of
        None \<Rightarrow> Some (h1, layer[nat index := lp], False)
      | Some dst \<Rightarrow>
          let (h2, result) = BPX_image_input_read ops h1 dst src;
              (h3, result') = (if result then BPX_image_buf_transform ops h2 dst
                               else (h2, result))
          in Some (h3, layer[nat index := lp], result'))))"

text \<open>
  The loop of \<^verbatim>\<open>mesh_ptex_import_quad\<close> that initialises the four rasters
  \<^verbatim>\<open>loop_ptex[i]\<close> and wraps them.  \<open>base\<close> is the index of \<^verbatim>\<open>loop_ptex[0]\<close> in the
  layer; an index outside the layer and a failed assertion are \<open>None\<close>.
\<close>

fun import_quad_init ::
  "heap \<Rightarrow> MLoopPtex list \<Rightarrow> int \<Rightarrow> MPtexTexelInfo \<Rightarrow> MPtexLogRes \<Rightarrow> MPtexLogRes \<Rightarrow> nat list
     \<Rightarrow> (heap \<times> MLoopPtex list \<times> BPXImageBuf list) option" where
  "import_quad_init h layer base ti lr lr_transposed [] = Some (h, layer, [])"
| "import_quad_init h layer base ti lr lr_transposed (i # is) =
     (if \<not> (0 \<le> base + int i \<and> base + int i < int (length layer)) then None
      else
        (case BKE_loop_ptex_init h (layer ! nat (base + int i)) ti
                (if i mod 2 = 0 then lr else lr_transposed) of
           None \<Rightarrow> None
         | Some (h1, lp) \<Rightarrow>
        (case bpx_image_buf_wrap_loop_ptex lp of
           None \<Rightarrow> None
         | Some d \<Rightarrow>
        (case import_quad_init h1 (layer[nat (base + int i) := lp]) base ti lr lr_transposed is of
           None \<Rightarrow> None
         | Some (h2, layer2, ds) \<Rightarrow> Some (h2, layer2, d # ds)))))"

text \<open>
  \<^verbatim>\<open>mesh_ptex_import_quad\<close> returns the store, the layer and the result.  The source
  asserts the result of the quad split.
\<close>

definition mesh_ptex_import_quad ::
  "bpx_ops \<Rightarrow> heap \<Rightarrow> BPXImageInput \<Rightarrow> MLoopPtex list \<Rightarrow> int \<Rightarrow> MPtexTexelInfo \<Rightarrow> int \<Rightarrow> int
     \<Rightarrow> (heap \<times> MLoopPtex list \<times> bool) option" where
  "mesh_ptex_import_quad ops h src layer base ti width height =
     (case BKE_ptex_log_res_from_res width height of
        None \<Rightarrow> Some (h, layer, False)
      | Some lr0 \<Rightarrow>
          if \<not> op_alloc_empty_ok ops then Some (h, layer, False)
          else
            (case op_read ops (in_current src) None of
               None \<Rightarrow> Some (h, layer, False)
             | Some all_pixels \<Rightarrow>
                 let lr1 = (if u lr0 \<ge> 1 then lr0\<lparr>u := u lr0 - 1\<rparr> else lr0);
                     lr = (if v lr1 \<ge> 1 then lr1\<lparr>v := v lr1 - 1\<rparr> else lr1);
                     lr_transposed = \<lparr>u = v lr, v = u lr\<rparr>
                 in (case import_quad_init h layer base ti lr lr_transposed [0 ..< 4] of
                       None \<Rightarrow> None
                     | Some (h1, layer1, dst) \<Rightarrow>
                         let (h2, r) = BPX_image_buf_quad_split ops h1 dst all_pixels
                         in if r then Some (h2, layer1, True) else None)))"

text \<open>
  The state of the two nested loops of \<^verbatim>\<open>BKE_ptex_import\<close>: the store, the file, the
  layer that \<^verbatim>\<open>loop_ptex\<close> points to, and \<^verbatim>\<open>ptex_face_id\<close>.
\<close>

record import_state =
  st_heap :: heap
  st_input :: BPXImageInput
  st_layer :: "MLoopPtex list"
  ptex_face_id :: int

text \<open>
  The inner loop over the offsets \<^verbatim>\<open>j\<close> of one polygon.  The flag of the result is
  false when the loop was left through one of the three error branches, which set
  \<^verbatim>\<open>i = me->totpoly\<close> to end the outer loop as well.  The assertions of those
  branches only report the error and are not modelled.
\<close>

fun import_poly_loops ::
  "bpx_ops \<Rightarrow> MPtexTexelInfo \<Rightarrow> MPoly \<Rightarrow> nat list \<Rightarrow> import_state \<Rightarrow> (import_state \<times> bool) option"
where
  "import_poly_loops ops ti p [] st = Some (st, True)"
| "import_poly_loops ops ti p (j # js) st =
     (let loop_index = loopstart p + int j in
      case BPX_image_input_seek_subimage (st_input st) (ptex_face_id st) of
        None \<Rightarrow> Some (st, False)
      | Some (input', width, height) \<Rightarrow>
          if totloop p = 4 then
            (case mesh_ptex_import_quad ops (st_heap st) input' (st_layer st) loop_index ti
                    width height of
               None \<Rightarrow> None
             | Some (h', layer', ok) \<Rightarrow>
                 if \<not> ok then
                   Some (st\<lparr>st_heap := h', st_input := input', st_layer := layer'\<rparr>, False)
                 else
                   Some (st\<lparr>st_heap := h', st_input := input', st_layer := layer',
                            ptex_face_id := ptex_face_id st + 1\<rparr>, True))
          else
            (case mesh_ptex_import_loop ops (st_heap st) input' (st_layer st) loop_index ti
                    width height of
               None \<Rightarrow> None
             | Some (h', layer', ok) \<Rightarrow>
                 if \<not> ok then
                   Some (st\<lparr>st_heap := h', st_input := input', st_layer := layer'\<rparr>, False)
                 else
                   import_poly_loops ops ti p js
                     (st\<lparr>st_heap := h', st_input := input', st_layer := layer',
                         ptex_face_id := ptex_face_id st + 1\<rparr>)))"

text \<open>The outer loop over the polygons; it ends at the first error.\<close>

fun import_polys ::
  "bpx_ops \<Rightarrow> MPtexTexelInfo \<Rightarrow> MPoly list \<Rightarrow> import_state \<Rightarrow> import_state option" where
  "import_polys ops ti [] st = Some st"
| "import_polys ops ti (p # ps) st =
     (case import_poly_loops ops ti p [0 ..< nat (totloop p)] st of
        None \<Rightarrow> None
      | Some (st', continue) \<Rightarrow> if continue then import_polys ops ti ps st' else Some st')"

text \<open>
  Modelled from the spec: \<^verbatim>\<open>BLI_path_basename\<close> and \<^verbatim>\<open>CustomData_add_layer_named\<close>
  are not part of the source at hand.  The layer is stored under the file's base name;
  a new layer holds one zeroed raster record per loop of the mesh.
\<close>

definition BLI_path_basename :: "string \<Rightarrow> string" where
  "BLI_path_basename path = rev (takeWhile (\<lambda>c. c \<noteq> CHR ''/'') (rev path))"

definition CustomData_add_layer_named :: "bpx_ops \<Rightarrow> Mesh \<Rightarrow> string \<Rightarrow> MLoopPtex list option" where
  "CustomData_add_layer_named ops me name =
     (if op_add_layer_ok ops then Some (replicate (length (mloop me)) loop_ptex_zero) else None)"

text \<open>
  \<^verbatim>\<open>BKE_ptex_import\<close>.  \<open>input\<close> is what opening the file gave.  The layer is part of
  the mesh from the moment it is added; the loops write into it in place, so the mesh
  returned holds the layer as the loops left it.
\<close>

definition BKE_ptex_import ::
  "bpx_ops \<Rightarrow> heap \<Rightarrow> Mesh \<Rightarrow> string \<Rightarrow> BPXImageInput option \<Rightarrow> (heap \<times> Mesh \<times> bool) option" where
  "BKE_ptex_import ops h me filepath input =
     (case input of
        None \<Rightarrow> Some (h, me, False)
      | Some inp \<Rightarrow>
     (case bke_ptex_texel_info_from_bpx inp of
        None \<Rightarrow> Some (h, me, False)
      | Some ti \<Rightarrow>
     (case CustomData_add_layer_named ops me (BLI_path_basename filepath) of
        None \<Rightarrow> Some (h, me, False)
      | Some loop_ptex \<Rightarrow>
     (case import_polys ops ti (mpoly me)
             \<lparr>st_heap = h, st_input = inp, st_layer = loop_ptex, ptex_face_id = 0\<rparr> of
        None \<Rightarrow> None
      | Some st \<Rightarrow>
          Some (st_heap st,
                me\<lparr>ldata := ldata me @ [\<lparr>layer_name = BLI_path_basename filepath,
                                          layer_data = st_layer st\<rparr>]\<rparr>,
                True)))))"

text \<open>
  Test data: a mesh of one quad, a mesh of two triangles with a common edge, pixel
  operations that always succeed, and files with one subimage of 4 by 2 and of 2 by 2
  texels.
\<close>

definition quad_mesh :: Mesh where
  "quad_mesh = \<lparr>totedge = 4, mpoly = [\<lparr>loopstart = 0, totloop = 4\<rparr>],
                mloop = [\<lparr>e = 0\<rparr>, \<lparr>e = 1\<rparr>, \<lparr>e = 2\<rparr>, \<lparr>e = 3\<rparr>], ldata = []\<rparr>"

definition tri_mesh :: Mesh where
  "tri_mesh = \<lparr>totedge = 5,
               mpoly = [\<lparr>loopstart = 0, totloop = 3\<rparr>, \<lparr>loopstart = 3, totloop = 3\<rparr>],
               mloop = [\<lparr>e = 0\<rparr>, \<lparr>e = 1\<rparr>, \<lparr>e = 2\<rparr>, \<lparr>e = 2\<rparr>, \<lparr>e = 3\<rparr>, \<lparr>e = 4\<rparr>],
               ldata = []\<rparr>"

definition test_ops :: bpx_ops where
  "test_ops = \<lparr>op_alloc_empty_ok = True,
               op_read = (\<lambda>k d. Some (replicate 4 (U8 9))),
               op_transform = (\<lambda>d pixels. Some pixels),
               op_quad_split = (\<lambda>pixels ds. Some (map (\<lambda>d. pixels @ pixels) ds)),
               op_add_layer_ok = True\<rparr>"

definition file_4x2 :: BPXImageInput where
  "file_4x2 = \<lparr>in_type_desc = Some BPX_TYPE_DESC_UINT8, in_num_channels = Some 4,
               in_subimages = [(4, 2)], in_current = 0\<rparr>"

definition file_2x2 :: BPXImageInput where
  "file_2x2 = \<lparr>in_type_desc = Some BPX_TYPE_DESC_UINT8, in_num_channels = Some 1,
               in_subimages = [(2, 2)], in_current = 0\<rparr>"

text \<open>
  The LogRes of the quadrant raster \<open>i\<close> for a subimage of LogRes \<open>lr0\<close>: one less
  along each axis where the logarithm is at least 1, transposed for odd \<open>i\<close>.
\<close>

definition quad_logres :: "MPtexLogRes \<Rightarrow> nat \<Rightarrow> MPtexLogRes" where
  "quad_logres lr0 i =
     (let hu = (if u lr0 \<ge> 1 then u lr0 - 1 else u lr0);
          hv = (if v lr0 \<ge> 1 then v lr0 - 1 else v lr0)
      in if even i then \<lparr>u = hu, v = hv\<rparr> else \<lparr>u = hv, v = hu\<rparr>)"

section \<open>Properties of the texel descriptor\<close>

lemma int32_wrap_id: "- (2 ^ 31) \<le> x \<Longrightarrow> x < 2 ^ 31 \<Longrightarrow> int32_wrap x = x"
  by (simp add: int32_wrap_def)

lemma int32_wrap_small: "0 \<le> x \<Longrightarrow> x \<le> 2 ^ 30 \<Longrightarrow> int32_wrap x = x"
  by (rule int32_wrap_id) simp_all

lemma size_t_of_int_small: "0 \<le> x \<Longrightarrow> x \<le> 2 ^ 30 \<Longrightarrow> size_t_of_int x = nat x"
  by (simp add: size_t_of_int_def)

lemma size_t_of_int_id: "0 \<le> x \<Longrightarrow> x < 2 ^ 64 \<Longrightarrow> size_t_of_int x = nat x"
  by (simp add: size_t_of_int_def)

lemma bytes_per_texel_exact:
  assumes "0 \<le> num_channels ti" "num_channels ti \<le> 4"
  shows "int (BKE_ptex_bytes_per_texel ti) =
           ptex_data_type_num_bytes (data_type ti) * num_channels ti"
proof -
  let ?p = "ptex_data_type_num_bytes (data_type ti) * num_channels ti"
  have "0 \<le> ptex_data_type_num_bytes (data_type ti)"
       "ptex_data_type_num_bytes (data_type ti) \<le> 4"
    by (cases "data_type ti"; simp)+
  then have r: "0 \<le> ?p" "?p \<le> 16"
    using assms mult_mono [of "ptex_data_type_num_bytes (data_type ti)" 4 "num_channels ti" 4]
    by simp_all
  have "int32_wrap ?p = ?p"
    using r by (intro int32_wrap_id) simp_all
  moreover have "size_t_of_int ?p = nat ?p"
    using r by (intro size_t_of_int_id) simp_all
  ultimately show ?thesis
    using r by (simp add: BKE_ptex_bytes_per_texel_def)
qed

text \<open>
  Claim C8, as amended.  For a texel info of type uint8 or float32 whose channel count
  is in the accepted range 0..4, \<^verbatim>\<open>BKE_ptex_bytes_per_texel\<close> returns the byte size of one
  channel (1 for uint8, 4 for float32) times the channel count.  The value lies between
  1 and 4 for uint8 and between 4 and 16 for float32 when there is at least one channel;
  for the accepted channel count 0 it is 0.
\<close>

theorem bytes_per_texel_range:
  assumes "data_type ti = MPTEX_DATA_TYPE_UINT8 \<or> data_type ti = MPTEX_DATA_TYPE_FLOAT32"
    and "0 \<le> num_channels ti" and "num_channels ti \<le> 4"
  shows "int (BKE_ptex_bytes_per_texel ti) =
           (if data_type ti = MPTEX_DATA_TYPE_UINT8 then 1 else 4) * num_channels ti
         \<and> (num_channels ti = 0 \<longrightarrow> BKE_ptex_bytes_per_texel ti = 0)
         \<and> (1 \<le> num_channels ti \<and> data_type ti = MPTEX_DATA_TYPE_UINT8 \<longrightarrow>
              1 \<le> BKE_ptex_bytes_per_texel ti \<and> BKE_ptex_bytes_per_texel ti \<le> 4)
         \<and> (1 \<le> num_channels ti \<and> data_type ti = MPTEX_DATA_TYPE_FLOAT32 \<longrightarrow>
              4 \<le> BKE_ptex_bytes_per_texel ti \<and> BKE_ptex_bytes_per_texel ti \<le> 16)"
proof -
  have e: "int (BKE_ptex_bytes_per_texel ti) =
             ptex_data_type_num_bytes (data_type ti) * num_channels ti"
    using assms(2,3) by (rule bytes_per_texel_exact)
  show ?thesis
    using assms e by (cases "data_type ti") auto
qed

theorem bytes_per_texel_range_witness:
  "BKE_ptex_bytes_per_texel \<lparr>data_type = MPTEX_DATA_TYPE_FLOAT32, num_channels = 3\<rparr> = 12
   \<and> BKE_ptex_bytes_per_texel \<lparr>data_type = MPTEX_DATA_TYPE_UINT8, num_channels = 0\<rparr> = 0"
  using bytes_per_texel_range [of "\<lparr>data_type = MPTEX_DATA_TYPE_FLOAT32, num_channels = 3\<rparr>"]
        bytes_per_texel_range [of "\<lparr>data_type = MPTEX_DATA_TYPE_UINT8, num_channels = 0\<rparr>"]
  by simp

text \<open>
  Claim C8 as stated fails at the accepted channel count 0: the value is 0, below the
  lower bound 1 claimed for uint8.
\<close>

theorem bytes_per_texel_range_counterexample:
  "BKE_ptex_texel_info_init MPTEX_DATA_TYPE_UINT8 0
     = Some \<lparr>data_type = MPTEX_DATA_TYPE_UINT8, num_channels = 0\<rparr>
   \<and> \<not> (1 \<le> BKE_ptex_bytes_per_texel \<lparr>data_type = MPTEX_DATA_TYPE_UINT8, num_channels = 0\<rparr>
        \<and> BKE_ptex_bytes_per_texel \<lparr>data_type = MPTEX_DATA_TYPE_UINT8, num_channels = 0\<rparr> \<le> 4)"
  by (simp add: BKE_ptex_texel_info_init_def BKE_ptex_bytes_per_texel_def
                int32_wrap_def size_t_of_int_def)

subsection \<open>Rectangle size\<close>

lemma ptex_res_from_rlog2_exact:
  assumes "0 \<le> r" "r \<le> 30"
  shows "ptex_res_from_rlog2 r = 2 ^ nat r"
proof -
  have "nat r \<le> 30" using assms by simp
  then have "(2::int) ^ nat r \<le> 2 ^ 30"
    by (intro power_increasing) simp_all
  moreover have "(0::int) \<le> 2 ^ nat r" by simp
  ultimately have "int32_wrap (2 ^ nat r) = 2 ^ nat r"
    by (intro int32_wrap_small)
  then show ?thesis by (simp add: ptex_res_from_rlog2_def)
qed

lemma ptex_area_from_logres_exact:
  assumes "0 \<le> u lr" "0 \<le> v lr" "u lr + v lr \<le> 30"
  shows "ptex_area_from_logres lr = 2 ^ nat (u lr) * 2 ^ nat (v lr)"
proof -
  let ?n = "nat (u lr) + nat (v lr)"
  have n: "?n \<le> 30" using assms by simp
  have ru: "ptex_res_from_rlog2 (u lr) = 2 ^ nat (u lr)"
    using assms by (intro ptex_res_from_rlog2_exact) simp_all
  have rv: "ptex_res_from_rlog2 (v lr) = 2 ^ nat (v lr)"
    using assms by (intro ptex_res_from_rlog2_exact) simp_all
  have le: "(2::int) ^ ?n \<le> 2 ^ 30"
    using n by (intro power_increasing) simp_all
  have ge: "(0::int) \<le> 2 ^ ?n" by simp
  have w: "int32_wrap (2 ^ ?n) = 2 ^ ?n"
    using ge le by (rule int32_wrap_small)
  have s: "size_t_of_int (2 ^ ?n) = nat (2 ^ ?n)"
    using ge le by (rule size_t_of_int_small)
  have "ptex_area_from_logres lr = nat (2 ^ ?n)"
    by (simp add: ptex_area_from_logres_def ru rv w s flip: power_add)
  also have "\<dots> = 2 ^ ?n"
    by (simp add: nat_power_eq)
  finally show ?thesis by (simp add: power_add)
qed

text \<open>
  Where the sum of the two logarithms is at most 30 the \<^verbatim>\<open>int\<close> product does not
  overflow, and the size is exact.
\<close>

lemma rect_num_bytes_exact_small:
  assumes "0 \<le> num_channels ti" "num_channels ti \<le> 4"
    and "0 \<le> u lr" "0 \<le> v lr" "u lr + v lr \<le> 30"
  shows "BKE_ptex_rect_num_bytes ti lr =
           BKE_ptex_bytes_per_texel ti * 2 ^ nat (u lr) * 2 ^ nat (v lr)"
proof -
  let ?n = "nat (u lr) + nat (v lr)"
  have a: "ptex_area_from_logres lr = 2 ^ ?n"
    using assms(3-5) by (simp add: ptex_area_from_logres_exact power_add)
  have "int (BKE_ptex_bytes_per_texel ti) \<le> 4 * 4"
    unfolding bytes_per_texel_exact [OF assms(1,2)]
    using assms(1,2) by (intro mult_mono) (cases "data_type ti"; simp)+
  then have b: "BKE_ptex_bytes_per_texel ti \<le> 2 ^ 4" by simp
  have "?n \<le> 30" using assms(3-5) by simp
  then have "(2::nat) ^ ?n \<le> 2 ^ 30"
    by (intro power_increasing) simp_all
  with b have "BKE_ptex_bytes_per_texel ti * 2 ^ ?n \<le> 2 ^ 4 * 2 ^ 30"
    by (rule mult_le_mono)
  then have "BKE_ptex_bytes_per_texel ti * 2 ^ ?n < 2 ^ 64" by simp
  then show ?thesis
    by (simp add: BKE_ptex_rect_num_bytes_def size_t_mul_def a power_add mult.assoc)
qed

text \<open>
  Claim C3 at the valid input uint8 with 4 channels and LogRes (16, 16).  The claim gives
  \<open>4 * 2 ^ 16 * 2 ^ 16 = 17179869184\<close> bytes.  The code multiplies the two side lengths
  as \<^verbatim>\<open>int\<close>: \<open>65536 * 65536\<close> overflows 32 bits and the area comes out as 0, so
  \<^verbatim>\<open>BKE_ptex_rect_num_bytes\<close> returns 0.
\<close>

theorem rect_num_bytes_overflow:
  "BKE_ptex_texel_info_init MPTEX_DATA_TYPE_UINT8 4
     = Some \<lparr>data_type = MPTEX_DATA_TYPE_UINT8, num_channels = 4\<rparr>
   \<and> ptex_rlog2_valid 16
   \<and> BKE_ptex_bytes_per_texel \<lparr>data_type = MPTEX_DATA_TYPE_UINT8, num_channels = 4\<rparr> = 4
   \<and> ptex_area_from_logres \<lparr>u = 16, v = 16\<rparr> = 0
   \<and> BKE_ptex_rect_num_bytes \<lparr>data_type = MPTEX_DATA_TYPE_UINT8, num_channels = 4\<rparr>
        \<lparr>u = 16, v = 16\<rparr> = 0
   \<and> BKE_ptex_rect_num_bytes \<lparr>data_type = MPTEX_DATA_TYPE_UINT8, num_channels = 4\<rparr>
        \<lparr>u = 16, v = 16\<rparr> \<noteq> 4 * 2 ^ 16 * 2 ^ 16"
  by (simp add: BKE_ptex_texel_info_init_def ptex_rlog2_valid_def ptex_rlog2_limit_def
                BKE_ptex_rect_num_bytes_def BKE_ptex_bytes_per_texel_def
                ptex_area_from_logres_def ptex_res_from_rlog2_def
                int32_wrap_def size_t_of_int_def size_t_mul_def)


section \<open>Properties of the edge-adjacency lookup\<close>

lemma other_poly_two:
  "bke_ptex_edge_adj_other_poly (Some \<lparr>polys = [a, b]\<rparr>) p =
     (if a = p then b else if b = p then a else BKE_PTEX_NO_ADJ_POLY)"
  by (simp add: bke_ptex_edge_adj_other_poly_def BKE_PTEX_MAX_ADJ_POLYS_def upt_rec)

lemma polys_two:
  assumes "length (polys ea) = BKE_PTEX_MAX_ADJ_POLYS"
  shows "\<exists>a b. polys ea = [a, b]"
  using assms by (cases "polys ea"; simp add: BKE_PTEX_MAX_ADJ_POLYS_def; case_tac list; simp)

lemma other_poly_scan_two:
  "other_poly_scan [a, b] p [0 ..< BKE_PTEX_MAX_ADJ_POLYS] =
     (if a = p then b else if b = p then a else BKE_PTEX_NO_ADJ_POLY)"
  by (simp add: BKE_PTEX_MAX_ADJ_POLYS_def upt_rec)

text \<open>
  Claim C4.  For every edge-adjacency record with its two slots and every polygon index
  \<open>p\<close>: when the lookup of the other polygon returns a polygon \<open>q\<close> (not \<open>-1\<close>), the
  lookup of \<open>q\<close> returns \<open>p\<close>; the lookup returns \<open>-1\<close> when \<open>p\<close> is in no slot, and
  when \<open>p\<close> is in a slot whose complementary slot is empty.
\<close>

theorem other_poly_involutive:
  assumes "length (polys ea) = BKE_PTEX_MAX_ADJ_POLYS"
  shows "(bke_ptex_edge_adj_other_poly (Some ea) p \<noteq> BKE_PTEX_NO_ADJ_POLY \<longrightarrow>
            bke_ptex_edge_adj_other_poly (Some ea)
              (bke_ptex_edge_adj_other_poly (Some ea) p) = p)
       \<and> (p \<notin> set (polys ea) \<longrightarrow>
            bke_ptex_edge_adj_other_poly (Some ea) p = BKE_PTEX_NO_ADJ_POLY)
       \<and> (\<forall>i < BKE_PTEX_MAX_ADJ_POLYS.
            polys ea ! i = p \<and>
            polys ea ! (BKE_PTEX_MAX_ADJ_POLYS - i - 1) = BKE_PTEX_NO_ADJ_POLY \<longrightarrow>
            bke_ptex_edge_adj_other_poly (Some ea) p = BKE_PTEX_NO_ADJ_POLY)"
proof -
  obtain a b where ab: "polys ea = [a, b]"
    using polys_two [OF assms] by blast
  have sc: "\<And>q. bke_ptex_edge_adj_other_poly (Some ea) q =
             (if a = q then b else if b = q then a else BKE_PTEX_NO_ADJ_POLY)"
    by (simp add: bke_ptex_edge_adj_other_poly_def ab other_poly_scan_two)
  have 1: "bke_ptex_edge_adj_other_poly (Some ea) p \<noteq> BKE_PTEX_NO_ADJ_POLY \<longrightarrow>
            bke_ptex_edge_adj_other_poly (Some ea)
              (bke_ptex_edge_adj_other_poly (Some ea) p) = p"
    by (simp add: sc)
  have 2: "p \<notin> set (polys ea) \<longrightarrow>
            bke_ptex_edge_adj_other_poly (Some ea) p = BKE_PTEX_NO_ADJ_POLY"
    by (simp add: sc ab)
  have 3: "\<forall>i < BKE_PTEX_MAX_ADJ_POLYS.
            polys ea ! i = p \<and>
            polys ea ! (BKE_PTEX_MAX_ADJ_POLYS - i - 1) = BKE_PTEX_NO_ADJ_POLY \<longrightarrow>
            bke_ptex_edge_adj_other_poly (Some ea) p = BKE_PTEX_NO_ADJ_POLY"
    by (auto simp: sc ab BKE_PTEX_MAX_ADJ_POLYS_def less_Suc_eq numeral_2_eq_2)
  show ?thesis using 1 2 3 by blast
qed

theorem other_poly_involutive_witness:
  "bke_ptex_edge_adj_other_poly (Some \<lparr>polys = [3, 7]\<rparr>) 3 = 7
   \<and> bke_ptex_edge_adj_other_poly (Some \<lparr>polys = [3, 7]\<rparr>) 7 = 3
   \<and> bke_ptex_edge_adj_other_poly (Some \<lparr>polys = [3, 7]\<rparr>) 5 = - 1
   \<and> bke_ptex_edge_adj_other_poly (Some \<lparr>polys = [3, - 1]\<rparr>) 3 = - 1"
  using other_poly_involutive [of "\<lparr>polys = [3, 7]\<rparr>" 3]
        other_poly_involutive [of "\<lparr>polys = [3, 7]\<rparr>" 5]
        other_poly_involutive [of "\<lparr>polys = [3, - 1]\<rparr>" 3]
  by (simp add: BKE_PTEX_MAX_ADJ_POLYS_def BKE_PTEX_NO_ADJ_POLY_def other_poly_two)

section \<open>Properties of the edge-adjacency index\<close>

lemma adj_pad_Nil [simp]: "adj_pad n [] = replicate n BKE_PTEX_NO_ADJ_POLY"
  by (simp add: adj_pad_def)

lemma adj_pad_0 [simp]: "adj_pad 0 rs = []"
  by (simp add: adj_pad_def)

lemma adj_pad_Cons [simp]: "adj_pad (Suc n) (r # rs) = r # adj_pad n rs"
  by (simp add: adj_pad_def)

lemma adj_polys_add_pad:
  "BKE_PTEX_NO_ADJ_POLY \<notin> set rs \<Longrightarrow> adj_polys_add (adj_pad n rs) p = adj_pad n (rs @ [p])"
proof (induction rs arbitrary: n)
  case Nil
  show ?case by (cases n) simp_all
next
  case (Cons r rs)
  then show ?case by (cases n) auto
qed

lemma edge_adj_run_append:
  "edge_adj_run me (xs @ ys) adj =
     (case edge_adj_run me xs adj of None \<Rightarrow> None | Some a \<Rightarrow> edge_adj_run me ys a)"
  by (induction xs arbitrary: adj) (auto split: option.splits)

lemma edge_adj_init_loops_run:
  "edge_adj_init_loops me pidx p is adj =
     edge_adj_run me (map (\<lambda>i. (pidx, loopstart p + int i)) is) adj"
  by (induction "is" arbitrary: adj) (auto split: option.splits)

lemma edge_adj_init_polys_run:
  "edge_adj_init_polys me ps adj = edge_adj_run me (concat (map poly_scan ps)) adj"
proof (induction ps arbitrary: adj)
  case Nil
  show ?case by simp
next
  case (Cons ip ps)
  obtain pidx p where ip: "ip = (pidx, p)" by (cases ip)
  show ?case
    by (simp add: ip edge_adj_run_append edge_adj_init_loops_run poly_scan_def Cons.IH
             split: option.splits)
qed

lemma bke_ptex_edge_adj_init_run:
  "bke_ptex_edge_adj_init me = edge_adj_run me (loop_scan me) (bke_ptex_edge_adj_alloc me)"
  by (simp add: bke_ptex_edge_adj_init_def loop_scan_def edge_adj_init_polys_run)

lemma refs_of_snoc:
  "refs_of me (evs @ [ev]) ei =
     (if e (mloop me ! nat (snd ev)) = ei then refs_of me evs ei @ [fst ev] else refs_of me evs ei)"
  by (simp add: refs_of_def)

lemma refs_of_no_adj:
  "evs_ok me evs \<Longrightarrow> BKE_PTEX_NO_ADJ_POLY \<notin> set (refs_of me evs ei)"
  by (auto simp: evs_ok_def refs_of_def)

lemma edge_adj_add_loop_step:
  assumes edges: "list_all (\<lambda>l. 0 \<le> e l \<and> e l < totedge me) (mloop me)"
    and ok: "evs_ok me (evs @ [ev])"
    and inv: "adj_inv me n evs adj"
  shows "\<exists>adj1. edge_adj_add_loop me (fst ev) adj (snd ev) = Some adj1
               \<and> adj_inv me n (evs @ [ev]) adj1"
proof -
  let ?li = "snd ev"
  let ?l = "mloop me ! nat ?li"
  let ?ei = "e ?l"
  have li: "0 \<le> ?li" "?li < Mesh_totloop me"
    using ok by (simp_all add: evs_ok_def)
  then have "nat ?li < length (mloop me)"
    by (simp add: Mesh_totloop_def)
  then have "?l \<in> set (mloop me)" by simp
  with edges have ei: "0 \<le> ?ei" "?ei < totedge me"
    by (simp_all add: list_all_iff)
  have len: "length adj = nat (totedge me)"
    using inv by (simp add: adj_inv_def)
  have at: "adj_at adj ?ei = Some (adj ! nat ?ei)"
    using ei len by (simp add: adj_at_def)
  let ?adj1 = "adj[nat ?ei := (adj ! nat ?ei)\<lparr>polys := adj_polys_add (polys (adj ! nat ?ei)) (fst ev)\<rparr>]"
  have r: "edge_adj_add_loop me (fst ev) adj ?li = Some ?adj1"
    using li ei at by (simp add: edge_adj_add_loop_def mloop_at_def Let_def)
  have ok': "evs_ok me evs"
    using ok by (simp add: evs_ok_def)
  have "polys (?adj1 ! nat ei) = adj_pad n (refs_of me (evs @ [ev]) ei)"
    if "0 \<le> ei" "ei < totedge me" for ei
  proof (cases "ei = ?ei")
    case True
    have "polys (adj ! nat ?ei) = adj_pad n (refs_of me evs ?ei)"
      using inv ei by (simp add: adj_inv_def)
    then have "adj_polys_add (polys (adj ! nat ?ei)) (fst ev)
                 = adj_pad n (refs_of me evs ?ei @ [fst ev])"
      using refs_of_no_adj [OF ok'] by (simp add: adj_polys_add_pad)
    then show ?thesis
      using True ei len by (simp add: refs_of_snoc)
  next
    case False
    then have "nat ei \<noteq> nat ?ei"
      using that ei by simp
    moreover have "polys (adj ! nat ei) = adj_pad n (refs_of me evs ei)"
      using inv that by (simp add: adj_inv_def)
    ultimately show ?thesis
      using False by (simp add: refs_of_snoc)
  qed
  then have "adj_inv me n (evs @ [ev]) ?adj1"
    using len by (simp add: adj_inv_def)
  with r show ?thesis by blast
qed

lemma edge_adj_run_inv:
  assumes edges: "list_all (\<lambda>l. 0 \<le> e l \<and> e l < totedge me) (mloop me)"
  shows "evs_ok me (done @ evs) \<Longrightarrow> adj_inv me n done adj \<Longrightarrow>
         \<exists>adj'. edge_adj_run me evs adj = Some adj' \<and> adj_inv me n (done @ evs) adj'"
proof (induction evs arbitrary: "done" adj)
  case Nil
  then show ?case by simp
next
  case (Cons ev evs)
  have ok1: "evs_ok me (done @ [ev])"
    using Cons.prems(1) by (simp add: evs_ok_def)
  obtain adj1 where a1: "edge_adj_add_loop me (fst ev) adj (snd ev) = Some adj1"
      and i1: "adj_inv me n (done @ [ev]) adj1"
    using edge_adj_add_loop_step [OF edges ok1 Cons.prems(2)] by blast
  have "evs_ok me ((done @ [ev]) @ evs)"
    using Cons.prems(1) by simp
  from Cons.IH [OF this i1] show ?case
    by (simp add: a1)
qed

lemma adj_inv_alloc: "0 \<le> totedge me \<Longrightarrow> adj_inv me BKE_PTEX_MAX_ADJ_POLYS [] (bke_ptex_edge_adj_alloc me)"
  by (simp add: adj_inv_def bke_ptex_edge_adj_alloc_def refs_of_def)

lemma evs_ok_loop_scan:
  assumes "mesh_valid me"
  shows "evs_ok me (loop_scan me)"
proof -
  have "fst ev \<noteq> BKE_PTEX_NO_ADJ_POLY \<and> 0 \<le> snd ev \<and> snd ev < Mesh_totloop me"
    if "ev \<in> set (loop_scan me)" for ev
  proof -
    from that obtain ip where ip: "ip \<in> set (enumerate 0 (mpoly me))" and ev: "ev \<in> set (poly_scan ip)"
      by (auto simp: loop_scan_def)
    have "snd ip \<in> set (mpoly me)"
      using ip by (metis in_set_zipE enumerate_eq_zip prod.collapse)
    then have p: "0 \<le> loopstart (snd ip)" "loopstart (snd ip) + totloop (snd ip) \<le> Mesh_totloop me"
      using assms by (simp_all add: mesh_valid_def list_all_iff)
    from ev obtain i where "i < nat (totloop (snd ip))" "ev = (int (fst ip), loopstart (snd ip) + int i)"
      by (auto simp: poly_scan_def)
    then show ?thesis
      using p by (simp add: BKE_PTEX_NO_ADJ_POLY_def)
  qed
  then show ?thesis by (simp add: evs_ok_def)
qed

lemma bke_ptex_edge_adj_init_inv:
  assumes "mesh_valid me"
  shows "\<exists>adj. bke_ptex_edge_adj_init me = Some adj
             \<and> adj_inv me BKE_PTEX_MAX_ADJ_POLYS (loop_scan me) adj"
proof -
  have edges: "list_all (\<lambda>l. 0 \<le> e l \<and> e l < totedge me) (mloop me)"
    and te: "0 \<le> totedge me"
    using assms by (simp_all add: mesh_valid_def)
  have "evs_ok me ([] @ loop_scan me)"
    using evs_ok_loop_scan [OF assms] by simp
  from edge_adj_run_inv [OF edges this adj_inv_alloc [OF te]]
  show ?thesis by (simp add: bke_ptex_edge_adj_init_run)
qed

lemma filter_eq_distinct:
  "distinct ys \<Longrightarrow> filter (\<lambda>y. y = a) ys = (if a \<in> set ys then [a] else [])"
  by (induction ys) auto

lemma refs_of_concat:
  "refs_of me (concat xss) ei = concat (map (\<lambda>xs. refs_of me xs ei) xss)"
  by (induction xss) (simp_all add: refs_of_def)

lemma refs_of_poly_scan:
  "refs_of me (poly_scan ip) ei =
     map (\<lambda>_. int (fst ip)) (filter (\<lambda>x. x = ei) (poly_edges me (snd ip)))"
  by (simp add: refs_of_def poly_scan_def poly_edges_def filter_map comp_def)

lemma refs_of_poly_scan_distinct:
  "distinct (poly_edges me (snd ip)) \<Longrightarrow>
   refs_of me (poly_scan ip) ei = (if ei \<in> set (poly_edges me (snd ip)) then [int (fst ip)] else [])"
  by (simp add: refs_of_poly_scan filter_eq_distinct)

lemma concat_map_if:
  "concat (map (\<lambda>x. if P x then [f x] else []) xs) = map f (filter P xs)"
  by (induction xs) simp_all

lemma edge_refs_simple:
  assumes "mesh_simple me"
  shows "edge_refs me ei = polys_on_edge me ei"
proof -
  have d: "distinct (poly_edges me (snd ip))" if "ip \<in> set (enumerate 0 (mpoly me))" for ip
  proof -
    have "snd ip \<in> set (mpoly me)"
      using that by (metis in_set_zipE enumerate_eq_zip prod.collapse)
    then show ?thesis
      using assms by (simp add: mesh_simple_def list_all_iff)
  qed
  have "edge_refs me ei =
          concat (map (\<lambda>ip. refs_of me (poly_scan ip) ei) (enumerate 0 (mpoly me)))"
    by (simp add: edge_refs_def loop_scan_def refs_of_concat comp_def)
  also have "\<dots> = concat (map (\<lambda>ip. if ei \<in> set (poly_edges me (snd ip)) then [int (fst ip)] else [])
                             (enumerate 0 (mpoly me)))"
    using d by (intro arg_cong [where f = concat] map_cong refl refs_of_poly_scan_distinct)
  also have "\<dots> = polys_on_edge me ei"
    by (simp add: concat_map_if polys_on_edge_def)
  finally show ?thesis .
qed

lemma adj_pad_slot_order:
  assumes "BKE_PTEX_NO_ADJ_POLY \<notin> set rs"
    and "adj_pad 2 rs ! 1 \<noteq> BKE_PTEX_NO_ADJ_POLY"
  shows "adj_pad 2 rs ! 0 \<noteq> BKE_PTEX_NO_ADJ_POLY"
proof (cases rs)
  case Nil
  with assms(2) show ?thesis by (simp add: numeral_2_eq_2)
next
  case (Cons r rs')
  with assms(1) show ?thesis by (auto simp: numeral_2_eq_2)
qed

text \<open>
  Claim C10, as amended.  On a well-formed mesh \<^verbatim>\<open>bke_ptex_edge_adj_init\<close> returns an index with one
  record per edge.  The record of an edge holds the first two entries of the sequence of
  polygons whose loops reference the edge, taken in scan order (increasing polygon index,
  one entry per referencing loop), slot 0 first, and \<open>-1\<close> in the slots left over; so
  slot 1 is filled only if slot 0 is.  Where no polygon has two loops on one edge that
  sequence is the list of the polygons with a loop on the edge, in increasing order.  A
  polygon that arrives when both slots are filled leaves the record as it is.
\<close>

theorem edge_adj_init_first_two:
  assumes "mesh_valid me"
  shows "(\<exists>adj. bke_ptex_edge_adj_init me = Some adj
           \<and> length adj = nat (totedge me)
           \<and> (\<forall>ei. 0 \<le> ei \<and> ei < totedge me \<longrightarrow>
                 polys (adj ! nat ei) =
                   take 2 (edge_refs me ei)
                     @ replicate (2 - length (edge_refs me ei)) BKE_PTEX_NO_ADJ_POLY
                 \<and> (polys (adj ! nat ei) ! 1 \<noteq> BKE_PTEX_NO_ADJ_POLY \<longrightarrow>
                      polys (adj ! nat ei) ! 0 \<noteq> BKE_PTEX_NO_ADJ_POLY)
                 \<and> (mesh_simple me \<longrightarrow> edge_refs me ei = polys_on_edge me ei)))
       \<and> (a \<noteq> BKE_PTEX_NO_ADJ_POLY \<and> b \<noteq> BKE_PTEX_NO_ADJ_POLY \<longrightarrow>
            adj_polys_add [a, b] p = [a, b])
       \<and> adj_polys_add [BKE_PTEX_NO_ADJ_POLY, b] p = [p, b]
       \<and> (a \<noteq> BKE_PTEX_NO_ADJ_POLY \<longrightarrow> adj_polys_add [a, BKE_PTEX_NO_ADJ_POLY] p = [a, p])"
proof -
  obtain adj where r: "bke_ptex_edge_adj_init me = Some adj"
      and inv: "adj_inv me BKE_PTEX_MAX_ADJ_POLYS (loop_scan me) adj"
    using bke_ptex_edge_adj_init_inv [OF assms] by blast
  have na: "BKE_PTEX_NO_ADJ_POLY \<notin> set (edge_refs me ei)" for ei
    unfolding edge_refs_def by (rule refs_of_no_adj [OF evs_ok_loop_scan [OF assms]])
  have len: "length adj = nat (totedge me)"
    using inv by (simp add: adj_inv_def)
  have slots: "polys (adj ! nat ei) = adj_pad 2 (edge_refs me ei)"
    if "0 \<le> ei \<and> ei < totedge me" for ei
    using inv that by (simp add: adj_inv_def edge_refs_def BKE_PTEX_MAX_ADJ_POLYS_def)
  have "polys (adj ! nat ei) =
          take 2 (edge_refs me ei) @ replicate (2 - length (edge_refs me ei)) BKE_PTEX_NO_ADJ_POLY
        \<and> (polys (adj ! nat ei) ! 1 \<noteq> BKE_PTEX_NO_ADJ_POLY \<longrightarrow>
             polys (adj ! nat ei) ! 0 \<noteq> BKE_PTEX_NO_ADJ_POLY)
        \<and> (mesh_simple me \<longrightarrow> edge_refs me ei = polys_on_edge me ei)"
    if "0 \<le> ei \<and> ei < totedge me" for ei
    using slots [OF that] adj_pad_slot_order [OF na [of ei]] edge_refs_simple [of me ei]
    by (simp add: adj_pad_def)
  with r len have "\<exists>adj. bke_ptex_edge_adj_init me = Some adj
           \<and> length adj = nat (totedge me)
           \<and> (\<forall>ei. 0 \<le> ei \<and> ei < totedge me \<longrightarrow>
                 polys (adj ! nat ei) =
                   take 2 (edge_refs me ei)
                     @ replicate (2 - length (edge_refs me ei)) BKE_PTEX_NO_ADJ_POLY
                 \<and> (polys (adj ! nat ei) ! 1 \<noteq> BKE_PTEX_NO_ADJ_POLY \<longrightarrow>
                      polys (adj ! nat ei) ! 0 \<noteq> BKE_PTEX_NO_ADJ_POLY)
                 \<and> (mesh_simple me \<longrightarrow> edge_refs me ei = polys_on_edge me ei))"
    by blast
  then show ?thesis by simp
qed

lemma fan_mesh_valid: "mesh_valid fan_mesh"
  by (simp add: mesh_valid_def fan_mesh_def Mesh_totloop_def)

lemma fan_mesh_simple: "mesh_simple fan_mesh"
  by code_simp

lemma fan_mesh_edge_refs: "edge_refs fan_mesh 2 = [0, 1, 2]" "polys_on_edge fan_mesh 2 = [0, 1, 2]"
  by code_simp+


theorem edge_adj_init_first_two_witness:
  "mesh_valid fan_mesh \<and> mesh_simple fan_mesh
   \<and> polys_on_edge fan_mesh 2 = [0, 1, 2]
   \<and> (\<exists>adj. bke_ptex_edge_adj_init fan_mesh = Some adj
         \<and> length adj = 7
         \<and> polys (adj ! 2) = [0, 1])"
proof -
  from edge_adj_init_first_two [OF fan_mesh_valid]
  obtain adj where r: "bke_ptex_edge_adj_init fan_mesh = Some adj"
    and len: "length adj = nat (totedge fan_mesh)"
    and sl: "\<forall>ei. 0 \<le> ei \<and> ei < totedge fan_mesh \<longrightarrow>
                 polys (adj ! nat ei) =
                   take 2 (edge_refs fan_mesh ei)
                     @ replicate (2 - length (edge_refs fan_mesh ei)) BKE_PTEX_NO_ADJ_POLY"
    by blast
  have te: "totedge fan_mesh = 7"
    by (simp add: fan_mesh_def)
  have "polys (adj ! nat 2) = take 2 (edge_refs fan_mesh 2)
                     @ replicate (2 - length (edge_refs fan_mesh 2)) BKE_PTEX_NO_ADJ_POLY"
    using sl [rule_format, of 2] te by simp
  then have "polys (adj ! 2) = [0, 1]"
    by (simp add: fan_mesh_edge_refs)
  moreover have "length adj = 7"
    using len te by simp
  ultimately show ?thesis
    using r fan_mesh_valid fan_mesh_simple fan_mesh_edge_refs by blast
qed

text \<open>
  Claim C10 as stated fails where a polygon has two loops on one edge.  In
  \<open>pinched_mesh\<close> the polygons on edge 0 are 0 and 1, in this order, but polygon 0
  references the edge with two loops: it fills both slots of the record, and polygon 1,
  the second polygon on the edge, is left out.
\<close>

theorem edge_adj_init_first_two_counterexample:
  "mesh_valid pinched_mesh
   \<and> polys_on_edge pinched_mesh 0 = [0, 1]
   \<and> edge_refs pinched_mesh 0 = [0, 0, 1]
   \<and> bke_ptex_edge_adj_init pinched_mesh
       = Some [\<lparr>polys = [0, 0]\<rparr>, \<lparr>polys = [0, - 1]\<rparr>, \<lparr>polys = [1, - 1]\<rparr>,
               \<lparr>polys = [1, - 1]\<rparr>]
   \<and> \<not> mesh_simple pinched_mesh"
proof -
  have "mesh_valid pinched_mesh"
    by (simp add: mesh_valid_def pinched_mesh_def Mesh_totloop_def)
  moreover have "polys_on_edge pinched_mesh 0 = [0, 1]"
    by code_simp
  moreover have "edge_refs pinched_mesh 0 = [0, 0, 1]"
    by code_simp
  moreover have "bke_ptex_edge_adj_init pinched_mesh
       = Some [\<lparr>polys = [0, 0]\<rparr>, \<lparr>polys = [0, - 1]\<rparr>, \<lparr>polys = [1, - 1]\<rparr>,
               \<lparr>polys = [1, - 1]\<rparr>]"
    by code_simp
  moreover have "\<not> mesh_simple pinched_mesh"
    by code_simp
  ultimately show ?thesis by blast
qed

section \<open>Properties of the adjacent-edge resolution\<close>









lemma adj_pad_length [simp]: "length (adj_pad n rs) = n"
  by (simp add: adj_pad_def)

















section \<open>Properties of the raster store\<close>

lemma length_concat_replicate: "length (concat (replicate n t)) = n * length t"
  by (induction n) simp_all

lemma concat_replicate_snoc: "concat (replicate n t) @ t = concat (replicate (Suc n) t)"
  by (induction n) simp_all

lemma fill_copy_loop_fills:
  assumes "length t = bpt"
  shows "1 \<le> i \<Longrightarrow> i \<le> area \<Longrightarrow> length rest = (area - i) * bpt \<Longrightarrow>
         fill_copy_loop (concat (replicate i t) @ rest) bpt i area
           = Some (concat (replicate area t))"
proof (induction "area - i" arbitrary: i rest)
  case 0
  then have "i = area" "rest = []" by simp_all
  then show ?case by simp
next
  case (Suc d)
  let ?buf = "concat (replicate i t) @ rest"
  have lt: "i < area" using Suc.hyps(2) by simp
  have len: "length ?buf = area * bpt"
    using Suc.prems assms by (simp add: length_concat_replicate flip: add_mult_distrib)
  obtain j where j: "i = Suc j" using Suc.prems(1) by (cases i) simp_all
  have tk: "take bpt ?buf = t"
    using assms by (simp add: j)
  have a1: "bpt \<le> area * bpt" using lt by (cases area) simp_all
  have b1: "\<not> bpt > length ?buf"
    unfolding len not_less by (rule a1)
  have rl: "bpt \<le> length rest"
    using Suc.prems(3) lt by (cases "area - i") simp_all
  have mw: "mem_write ?buf (i * bpt) t = Some (concat (replicate (Suc i) t) @ drop bpt rest)"
  proof -
    have "i * bpt + length t \<le> length ?buf"
      using rl assms by (simp add: length_concat_replicate)
    moreover have "take (i * bpt) ?buf = concat (replicate i t)"
      using assms by (simp add: length_concat_replicate)
    moreover have "drop (i * bpt + length t) ?buf = drop bpt rest"
      using assms by (simp add: length_concat_replicate)
    ultimately show ?thesis
      unfolding mem_write_def
      by (simp only: if_True append_assoc [symmetric] concat_replicate_snoc)
  qed
  have d: "d = area - Suc i" using Suc.hyps(2) by simp
  have l': "length (drop bpt rest) = (area - Suc i) * bpt"
    using Suc.prems(3) lt by (simp add: diff_mult_distrib)
  have "fill_copy_loop (concat (replicate (Suc i) t) @ drop bpt rest) bpt (Suc i) area
          = Some (concat (replicate area t))"
    using Suc.hyps(1) [OF d _ _ l'] lt by simp
  then show ?case
    using lt b1 mw tk by (subst fill_copy_loop.simps) simp
qed

lemma texel_at_concat_replicate:
  assumes "k < n"
  shows "texel_at (concat (replicate n t)) (length t) k = t"
proof -
  have "concat (replicate n t) = concat (replicate k t) @ t @ concat (replicate (n - Suc k) t)"
  proof -
    have "n = k + Suc (n - Suc k)" using assms by simp
    then have "replicate n t = replicate k t @ t # replicate (n - Suc k) t"
      by (metis replicate_add replicate_Suc)
    then show ?thesis by simp
  qed
  then show ?thesis
    by (simp add: texel_at_def length_concat_replicate)
qed

lemma num_channels_cases:
  "1 \<le> (n::int) \<Longrightarrow> n \<le> 4 \<Longrightarrow> n = 1 \<or> n = 2 \<or> n = 3 \<or> n = 4"
  by arith

lemma data_from_float_default:
  assumes "data_type ti = MPTEX_DATA_TYPE_UINT8 \<or> data_type ti = MPTEX_DATA_TYPE_FLOAT32"
    and "1 \<le> num_channels ti" "num_channels ti \<le> 4"
  shows "ptex_data_from_float default_pixel (data_type ti) (size_t_of_int (num_channels ti))
           = Some (default_texel ti)"
    and "length (default_texel ti) = BKE_ptex_bytes_per_texel ti"
proof -
  have s: "size_t_of_int (num_channels ti) = nat (num_channels ti)"
    using assms(2,3) by (intro size_t_of_int_small) simp_all
  have l: "nat (num_channels ti) \<le> length default_pixel"
    using assms(3) by (simp add: default_pixel_def)
  have f: "map FTOCHAR default_pixel = [204, 204, 204, 255]"
    by (simp add: FTOCHAR_def default_pixel_def)
  have "map (\<lambda>x. U8 (FTOCHAR x)) (take n default_pixel) = map U8 (take n [204, 204, 204, 255])" for n
    by (simp add: take_map flip: f)
  then show "ptex_data_from_float default_pixel (data_type ti) (size_t_of_int (num_channels ti))
           = Some (default_texel ti)"
    using assms(1) l
    by (auto simp: ptex_data_from_float_def default_texel_def s default_pixel_def)
  have b: "int (BKE_ptex_bytes_per_texel ti) =
             ptex_data_type_num_bytes (data_type ti) * num_channels ti"
    using assms(2,3) by (intro bytes_per_texel_exact) simp_all
  have "int (length (default_texel ti)) =
          ptex_data_type_num_bytes (data_type ti) * num_channels ti"
    using assms(1) num_channels_cases [OF assms(2,3)]
    by (auto simp: default_texel_def float_bytes_def)
  with b show "length (default_texel ti) = BKE_ptex_bytes_per_texel ti"
    by simp
qed

lemma bke_loop_ptex_fill_default:
  assumes dt: "data_type (texel_info lp) = MPTEX_DATA_TYPE_UINT8
               \<or> data_type (texel_info lp) = MPTEX_DATA_TYPE_FLOAT32"
    and nc: "1 \<le> num_channels (texel_info lp)" "num_channels (texel_info lp) \<le> 4"
    and r: "rect lp = Some dst"
    and b: "block_at h dst = Some buf"
    and len: "length buf = ptex_area_from_logres (logres lp) * BKE_ptex_bytes_per_texel (texel_info lp)"
    and a: "1 \<le> ptex_area_from_logres (logres lp)" "ptex_area_from_logres (logres lp) \<le> 2 ^ 30"
  shows "bke_loop_ptex_fill h lp default_pixel =
           Some (block_set h dst
                   (concat (replicate (ptex_area_from_logres (logres lp))
                                      (default_texel (texel_info lp)))), True)"
proof -
  let ?t = "default_texel (texel_info lp)"
  let ?bpt = "BKE_ptex_bytes_per_texel (texel_info lp)"
  let ?area = "ptex_area_from_logres (logres lp)"
  note df = data_from_float_default [OF dt nc]
  have lt: "length ?t = ?bpt" by (rule df(2))
  have "?bpt \<le> ?area * ?bpt" using a(1) by (cases ?area) simp_all
  then have tb: "length ?t \<le> length buf" using len lt by simp
  then have mw: "mem_write buf 0 ?t = Some (concat (replicate 1 ?t) @ drop ?bpt buf)"
    by (simp add: mem_write_def lt)
  have "length (drop ?bpt buf) = (?area - 1) * ?bpt"
    using len by (simp add: diff_mult_distrib)
  from fill_copy_loop_fills [OF lt _ a(1) this]
  have fl: "fill_copy_loop (concat (replicate 1 ?t) @ drop ?bpt buf) ?bpt 1 ?area
              = Some (concat (replicate ?area ?t))"
    by simp
  have na: "\<not> ?area < 1" "\<not> ?area > 2 ^ 31 - 1"
    using a by simp_all
  show ?thesis
    unfolding bke_loop_ptex_fill_def Let_def
    by (simp only: r b df(1) mw fl na option.case if_False)
qed

lemma int32_wrap_multiple: "2 ^ 32 dvd x \<Longrightarrow> int32_wrap x = 0"
proof -
  assume "2 ^ 32 dvd x"
  then have "(x + 2 ^ 31) mod 2 ^ 32 = (2 ^ 31 :: int) mod 2 ^ 32"
    by (metis dvd_eq_mod_eq_0 mod_add_left_eq add_0)
  then show ?thesis by (simp add: int32_wrap_def)
qed

lemma ptex_area_from_logres_cases:
  assumes "ptex_rlog2_valid (u lr)" "ptex_rlog2_valid (v lr)"
  shows "(u lr + v lr \<le> 30 \<and> ptex_area_from_logres lr = 2 ^ nat (u lr) * 2 ^ nat (v lr))
       \<or> (u lr + v lr = 31 \<and> ptex_area_from_logres lr = 2 ^ 64 - 2 ^ 31)
       \<or> (32 \<le> u lr + v lr \<and> ptex_area_from_logres lr = 0)"
proof -
  have r: "0 \<le> u lr" "u lr \<le> 30" "0 \<le> v lr" "v lr \<le> 30"
    using assms by (simp_all add: ptex_rlog2_valid_def ptex_rlog2_limit_def)
  have ru: "ptex_res_from_rlog2 (u lr) = 2 ^ nat (u lr)"
    using r by (intro ptex_res_from_rlog2_exact) simp_all
  have rv: "ptex_res_from_rlog2 (v lr) = 2 ^ nat (v lr)"
    using r by (intro ptex_res_from_rlog2_exact) simp_all
  let ?n = "nat (u lr) + nat (v lr)"
  have ar: "ptex_area_from_logres lr = size_t_of_int (int32_wrap (2 ^ ?n))"
    by (simp add: ptex_area_from_logres_def ru rv power_add)
  consider "u lr + v lr \<le> 30" | "u lr + v lr = 31" | "32 \<le> u lr + v lr"
    by linarith
  then show ?thesis
  proof cases
    case 1
    then show ?thesis
      using r ptex_area_from_logres_exact [of lr] by simp
  next
    case 2
    then have "?n = 31" using r by simp
    then have "ptex_area_from_logres lr = 2 ^ 64 - 2 ^ 31"
      by (simp add: ar int32_wrap_def size_t_of_int_def)
    with 2 show ?thesis by simp
  next
    case 3
    then have "32 \<le> ?n" using r by simp
    then have "(2::int) ^ 32 dvd 2 ^ ?n"
      by (rule le_imp_power_dvd)
    then have "int32_wrap (2 ^ ?n) = 0"
      by (rule int32_wrap_multiple)
    then have "ptex_area_from_logres lr = 0"
      by (simp add: ar size_t_of_int_def)
    with 3 show ?thesis by simp
  qed
qed

lemma rect_num_bytes_31:
  assumes "data_type ti = MPTEX_DATA_TYPE_UINT8 \<or> data_type ti = MPTEX_DATA_TYPE_FLOAT32"
    and "1 \<le> num_channels ti" "num_channels ti \<le> 4"
    and "ptex_area_from_logres lr = 2 ^ 64 - 2 ^ 31"
  shows "2 ^ 63 \<le> BKE_ptex_rect_num_bytes ti lr"
proof -
  have b: "int (BKE_ptex_bytes_per_texel ti) =
             ptex_data_type_num_bytes (data_type ti) * num_channels ti"
    using assms(2,3) by (intro bytes_per_texel_exact) simp_all
  have "BKE_ptex_bytes_per_texel ti \<in> {1, 2, 3, 4, 8, 12, 16}"
    using assms(1) num_channels_cases [OF assms(2,3)] b by auto
  then show ?thesis
    unfolding BKE_ptex_rect_num_bytes_def size_t_mul_def assms(4)
    by (elim insertE emptyE) simp_all
qed

lemma bke_loop_ptex_fill_nothing:
  assumes "rect lp = None \<or> ptex_area_from_logres (logres lp) = 0"
  shows "bke_loop_ptex_fill h lp fpixel = Some (h, False)"
proof (cases "rect lp")
  case None
  then show ?thesis
    by (simp add: bke_loop_ptex_fill_def)
next
  case (Some dst)
  with assms have "ptex_area_from_logres (logres lp) = 0" by simp
  then show ?thesis
    by (simp add: bke_loop_ptex_fill_def Some)
qed

lemma block_at_block_set:
  "a < length (blocks h) \<Longrightarrow> block_at (block_set h a buf) a = Some buf"
  by (simp add: block_at_def block_set_def)

lemma BKE_loop_ptex_init_unfold:
  assumes "ptex_rlog2_valid (u lr)" "ptex_rlog2_valid (v lr)"
    and "1 \<le> num_channels ti" "num_channels ti \<le> 4"
  shows "BKE_loop_ptex_init h lp ti lr =
     (case bke_loop_ptex_fill (fst (bke_ptex_texels_malloc h ti lr))
             (lp\<lparr>texel_info := ti, logres := lr, rect := snd (bke_ptex_texels_malloc h ti lr)\<rparr>)
             default_pixel of
        None \<Rightarrow> None
      | Some hf \<Rightarrow> Some (fst hf,
           lp\<lparr>texel_info := ti, logres := lr, rect := snd (bke_ptex_texels_malloc h ti lr)\<rparr>))"
proof -
  have c: "\<not> \<not> (ptex_rlog2_valid (u lr) \<and> ptex_rlog2_valid (v lr)
             \<and> num_channels ti \<ge> 1 \<and> num_channels ti \<le> 4)"
    using assms by simp
  show ?thesis
    unfolding BKE_loop_ptex_init_def Let_def case_prod_beta if_not_P [OF c]
    by (cases "bke_loop_ptex_fill (fst (bke_ptex_texels_malloc h ti lr))
             (lp\<lparr>texel_info := ti, logres := lr, rect := snd (bke_ptex_texels_malloc h ti lr)\<rparr>)
             default_pixel") (simp_all add: case_prod_beta)
qed

text \<open>
  What \<^verbatim>\<open>BKE_loop_ptex_init\<close> leaves behind, in terms of the byte size the code itself
  computes: with a valid texel info (uint8 or float32, one to four channels) and a valid
  LogRes it returns, with the descriptor stored in the raster; when a buffer was
  allocated, it has the size \<^verbatim>\<open>BKE_ptex_rect_num_bytes\<close> gives and every texel that
  fits into it is the default colour converted to the data type.  The allocator is
  taken to hold less than \<open>2 ^ 63\<close> bytes.
\<close>

lemma loop_ptex_init_fills_buffer:
  assumes dt: "data_type ti = MPTEX_DATA_TYPE_UINT8 \<or> data_type ti = MPTEX_DATA_TYPE_FLOAT32"
    and nc: "1 \<le> num_channels ti" "num_channels ti \<le> 4"
    and lr: "ptex_rlog2_valid (u lr)" "ptex_rlog2_valid (v lr)"
    and av: "avail h < 2 ^ 63"
  shows "\<exists>h' lp'.
           BKE_loop_ptex_init h lp ti lr = Some (h', lp')
           \<and> texel_info lp' = ti \<and> logres lp' = lr
           \<and> (rect lp' = None \<longleftrightarrow> avail h < BKE_ptex_rect_num_bytes ti lr)
           \<and> (\<forall>dst. rect lp' = Some dst \<longrightarrow>
                 (\<exists>buf. block_at h' dst = Some buf
                    \<and> length buf = BKE_ptex_rect_num_bytes ti lr
                    \<and> (\<forall>k. k < length buf div BKE_ptex_bytes_per_texel ti \<longrightarrow>
                          texel_at buf (BKE_ptex_bytes_per_texel ti) k = default_texel ti)))"
proof -
  let ?n = "BKE_ptex_rect_num_bytes ti lr"
  let ?bpt = "BKE_ptex_bytes_per_texel ti"
  let ?area = "ptex_area_from_logres lr"
  let ?lp1 = "\<lambda>r. lp\<lparr>texel_info := ti, logres := lr, rect := r\<rparr>"
  note unf = BKE_loop_ptex_init_unfold [OF lr nc, of h lp]
  note df = data_from_float_default [OF dt nc]
  have concl: ?thesis
    if "BKE_loop_ptex_init h lp ti lr = Some (h', ?lp1 r)"
      and "r = None \<longleftrightarrow> avail h < ?n"
      and "\<And>dst. r = Some dst \<Longrightarrow>
             \<exists>buf. block_at h' dst = Some buf \<and> length buf = ?n
                \<and> (\<forall>k. k < length buf div ?bpt \<longrightarrow> texel_at buf ?bpt k = default_texel ti)"
    for h' r
    using that by (intro exI [of _ h'] exI [of _ "?lp1 r"]) simp
  show ?thesis
  proof (cases "?n \<le> avail h")
    case False
    then have m: "bke_ptex_texels_malloc h ti lr = (h, None)"
      by (simp add: bke_ptex_texels_malloc_def MEM_mallocN_def)
    have "bke_loop_ptex_fill h (?lp1 None) default_pixel = Some (h, False)"
      by (rule bke_loop_ptex_fill_nothing) simp
    then have "BKE_loop_ptex_init h lp ti lr = Some (h, ?lp1 None)"
      by (simp add: unf m)
    then show ?thesis
    proof (rule concl)
      show "(None = None) = (avail h < ?n)" using False by simp
    qed simp
  next
    case True
    let ?dst = "length (blocks h)"
    let ?h1 = "h\<lparr>blocks := blocks h @ [Some (replicate ?n Undef)], avail := avail h - ?n\<rparr>"
    have m: "bke_ptex_texels_malloc h ti lr = (?h1, Some ?dst)"
      using True by (simp add: bke_ptex_texels_malloc_def MEM_mallocN_def)
    have b1: "block_at ?h1 ?dst = Some (replicate ?n Undef)"
      by (simp add: block_at_def)
    have n63: "\<not> 2 ^ 63 \<le> ?n"
      using True av by simp
    have n31: "?area \<noteq> 2 ^ 64 - 2 ^ 31"
      using rect_num_bytes_31 [OF dt nc, of lr] n63 by blast
    have "(u lr + v lr \<le> 30 \<and> ?area = 2 ^ nat (u lr) * 2 ^ nat (v lr)) \<or> ?area = 0"
      using ptex_area_from_logres_cases [OF lr] n31 by (elim disjE conjE) (simp_all only: simp_thms)
    then consider (small) "u lr + v lr \<le> 30" "?area = 2 ^ nat (u lr) * 2 ^ nat (v lr)"
      | (zero) "?area = 0"
      by (elim disjE conjE)
    then show ?thesis
    proof cases
      case zero
      then have n0: "?n = 0"
        by (simp add: BKE_ptex_rect_num_bytes_def size_t_mul_def)
      have "bke_loop_ptex_fill ?h1 (?lp1 (Some ?dst)) default_pixel = Some (?h1, False)"
        by (rule bke_loop_ptex_fill_nothing) (simp add: zero)
      then have "BKE_loop_ptex_init h lp ti lr = Some (?h1, ?lp1 (Some ?dst))"
        by (simp add: unf m)
      then show ?thesis
      proof (rule concl)
        show "(Some ?dst = None) = (avail h < ?n)" using True by simp
        show "\<exists>buf. block_at ?h1 dst = Some buf \<and> length buf = ?n
                \<and> (\<forall>k. k < length buf div ?bpt \<longrightarrow> texel_at buf ?bpt k = default_texel ti)"
          if "Some ?dst = Some dst" for dst
          using that b1 n0 by (intro exI [of _ "[]"]) auto
      qed
    next
      case small
      have lrr: "0 \<le> u lr" "0 \<le> v lr"
        using lr by (simp_all add: ptex_rlog2_valid_def)
      have ne: "?n = ?area * ?bpt"
        using rect_num_bytes_exact_small [of ti lr] nc lrr small
        by (simp add: mult.assoc mult.commute)
      have a1: "1 \<le> ?area"
        by (simp add: small(2))
      have "nat (u lr) + nat (v lr) \<le> 30"
        using small(1) lrr by simp
      then have "(2::nat) ^ (nat (u lr) + nat (v lr)) \<le> 2 ^ 30"
        by (intro power_increasing) simp_all
      then have a2: "?area \<le> 2 ^ 30"
        by (simp add: small(2) power_add)
      let ?buf = "concat (replicate ?area (default_texel ti))"
      have "bke_loop_ptex_fill ?h1 (?lp1 (Some ?dst)) default_pixel
              = Some (block_set ?h1 ?dst
                        (concat (replicate (ptex_area_from_logres (logres (?lp1 (Some ?dst))))
                                   (default_texel (texel_info (?lp1 (Some ?dst)))))), True)"
        by (rule bke_loop_ptex_fill_default [where buf = "replicate ?n Undef"])
           (use dt nc b1 ne a1 a2 in simp_all)
      then have fl: "bke_loop_ptex_fill ?h1 (?lp1 (Some ?dst)) default_pixel
              = Some (block_set ?h1 ?dst ?buf, True)"
        by simp
      have init: "BKE_loop_ptex_init h lp ti lr = Some (block_set ?h1 ?dst ?buf, ?lp1 (Some ?dst))"
        by (simp add: unf m fl)
      have blk: "block_at (block_set ?h1 ?dst ?buf) ?dst = Some ?buf"
        by (rule block_at_block_set) simp
      have len: "length ?buf = ?n"
        by (simp add: length_concat_replicate df(2) ne)
      have "int ?bpt = ptex_data_type_num_bytes (data_type ti) * num_channels ti"
        using nc by (intro bytes_per_texel_exact) simp_all
      moreover have "0 < ptex_data_type_num_bytes (data_type ti)"
        using dt by auto
      ultimately have "0 < int ?bpt"
        using nc by simp
      then have bp: "0 < ?bpt" by simp
      have dv: "length ?buf div ?bpt = ?area"
        using bp by (simp add: len ne)
      have tx: "texel_at ?buf ?bpt k = default_texel ti" if "k < length ?buf div ?bpt" for k
        using texel_at_concat_replicate [of k ?area "default_texel ti"] that
        by (simp add: dv df(2))
      show ?thesis
        using init
      proof (rule concl)
        show "(Some ?dst = None) = (avail h < ?n)" using True by simp
        show "\<exists>buf. block_at (block_set ?h1 ?dst ?buf) dst = Some buf \<and> length buf = ?n
                \<and> (\<forall>k. k < length buf div ?bpt \<longrightarrow> texel_at buf ?bpt k = default_texel ti)"
          if "Some ?dst = Some dst" for dst
          using that blk len tx by (intro exI [of _ ?buf]) auto
      qed
    qed
  qed
qed

lemma init_uint8_2x2:
  "BKE_loop_ptex_init empty_store loop_ptex_zero \<lparr>data_type = MPTEX_DATA_TYPE_UINT8, num_channels = 4\<rparr> \<lparr>u = 1, v = 1\<rparr>
     = Some (\<lparr>blocks = [Some [U8 204, U8 204, U8 204, U8 255, U8 204, U8 204, U8 204, U8 255,
                               U8 204, U8 204, U8 204, U8 255, U8 204, U8 204, U8 204, U8 255]],
               avail = 1008\<rparr>,
             \<lparr>texel_info = \<lparr>data_type = MPTEX_DATA_TYPE_UINT8, num_channels = 4\<rparr>,
              logres = \<lparr>u = 1, v = 1\<rparr>, rect = Some 0, image = None\<rparr>)"
  by code_simp

text \<open>
  Where the sum of the two logarithms is at most 30 and the allocation succeeds, the
  buffer holds \<open>2 ^ u * 2 ^ v\<close> texels and each of them is the default colour.
\<close>

lemma loop_ptex_init_default_color_small:
  assumes dt: "data_type ti = MPTEX_DATA_TYPE_UINT8 \<or> data_type ti = MPTEX_DATA_TYPE_FLOAT32"
    and nc: "1 \<le> num_channels ti" "num_channels ti \<le> 4"
    and lr: "0 \<le> u lr" "0 \<le> v lr" "u lr + v lr \<le> 30"
    and av: "avail h < 2 ^ 63" "BKE_ptex_rect_num_bytes ti lr \<le> avail h"
  shows "\<exists>h' lp' dst buf.
           BKE_loop_ptex_init h lp ti lr = Some (h', lp')
           \<and> texel_info lp' = ti \<and> logres lp' = lr
           \<and> rect lp' = Some dst \<and> block_at h' dst = Some buf
           \<and> length buf = BKE_ptex_bytes_per_texel ti * 2 ^ nat (u lr) * 2 ^ nat (v lr)
           \<and> (\<forall>k. k < 2 ^ nat (u lr) * 2 ^ nat (v lr) \<longrightarrow>
                 texel_at buf (BKE_ptex_bytes_per_texel ti) k = default_texel ti)"
proof -
  let ?bpt = "BKE_ptex_bytes_per_texel ti"
  let ?a = "2 ^ nat (u lr) * 2 ^ nat (v lr) :: nat"
  have v: "ptex_rlog2_valid (u lr)" "ptex_rlog2_valid (v lr)"
    using lr by (simp_all add: ptex_rlog2_valid_def ptex_rlog2_limit_def)
  have n: "BKE_ptex_rect_num_bytes ti lr = ?bpt * ?a"
    using rect_num_bytes_exact_small [of ti lr] nc lr by (simp add: mult.assoc)
  have bp: "0 < ?bpt"
    using data_from_float_default(2) [OF dt nc] dt num_channels_cases [OF nc]
    by (auto simp: default_texel_def float_bytes_def)
  from loop_ptex_init_fills_buffer [OF dt nc v av(1), of lp]
  obtain h' lp' where i: "BKE_loop_ptex_init h lp ti lr = Some (h', lp')"
    and f: "texel_info lp' = ti" "logres lp' = lr"
    and r: "rect lp' = None \<longleftrightarrow> avail h < BKE_ptex_rect_num_bytes ti lr"
    and b: "\<forall>dst. rect lp' = Some dst \<longrightarrow>
                 (\<exists>buf. block_at h' dst = Some buf
                    \<and> length buf = BKE_ptex_rect_num_bytes ti lr
                    \<and> (\<forall>k. k < length buf div ?bpt \<longrightarrow> texel_at buf ?bpt k = default_texel ti))"
    by (elim exE conjE)
  from r av(2) obtain dst where d: "rect lp' = Some dst"
    by (cases "rect lp'") simp_all
  with b obtain buf where bf: "block_at h' dst = Some buf"
    and len: "length buf = BKE_ptex_rect_num_bytes ti lr"
    and tx: "\<forall>k. k < length buf div ?bpt \<longrightarrow> texel_at buf ?bpt k = default_texel ti"
    by blast
  have "length buf div ?bpt = ?a"
    using bp by (simp add: len n)
  with tx have "\<forall>k. k < ?a \<longrightarrow> texel_at buf ?bpt k = default_texel ti"
    by simp
  with i f d bf len n show ?thesis
    by (simp add: mult.assoc)
qed

text \<open>
  Claim C9 at the valid input uint8 with 4 channels and LogRes (16, 16).  The claim
  says that every texel of the raster, \<open>65536 * 65536\<close> of them, holds the default colour
  (204, 204, 204, 255).  The \<^verbatim>\<open>int\<close> product in \<^verbatim>\<open>ptex_area_from_logres\<close> overflows to
  0, so \<^verbatim>\<open>BKE_loop_ptex_init\<close> allocates 0 bytes and fills nothing: the raster is
  returned with LogRes (16, 16) and an empty buffer, in which texel 0 is not the default
  colour.
\<close>

theorem loop_ptex_init_overflow:
  "ptex_rlog2_valid 16
   \<and> BKE_ptex_texel_info_init MPTEX_DATA_TYPE_UINT8 4
       = Some \<lparr>data_type = MPTEX_DATA_TYPE_UINT8, num_channels = 4\<rparr>
   \<and> BKE_loop_ptex_init empty_store loop_ptex_zero
         \<lparr>data_type = MPTEX_DATA_TYPE_UINT8, num_channels = 4\<rparr> \<lparr>u = 16, v = 16\<rparr>
       = Some (\<lparr>blocks = [Some []], avail = 1024\<rparr>,
               \<lparr>texel_info = \<lparr>data_type = MPTEX_DATA_TYPE_UINT8, num_channels = 4\<rparr>,
                logres = \<lparr>u = 16, v = 16\<rparr>, rect = Some 0, image = None\<rparr>)
   \<and> block_at \<lparr>blocks = [Some []], avail = 1024\<rparr> 0 = Some []
   \<and> texel_at [] 4 0 \<noteq> default_texel \<lparr>data_type = MPTEX_DATA_TYPE_UINT8, num_channels = 4\<rparr>"
proof -
  have "ptex_rlog2_valid 16"
    by (simp add: ptex_rlog2_valid_def ptex_rlog2_limit_def)
  moreover have "BKE_ptex_texel_info_init MPTEX_DATA_TYPE_UINT8 4
       = Some \<lparr>data_type = MPTEX_DATA_TYPE_UINT8, num_channels = 4\<rparr>"
    by (simp add: BKE_ptex_texel_info_init_def)
  moreover have "BKE_loop_ptex_init empty_store loop_ptex_zero
         \<lparr>data_type = MPTEX_DATA_TYPE_UINT8, num_channels = 4\<rparr> \<lparr>u = 16, v = 16\<rparr>
       = Some (\<lparr>blocks = [Some []], avail = 1024\<rparr>,
               \<lparr>texel_info = \<lparr>data_type = MPTEX_DATA_TYPE_UINT8, num_channels = 4\<rparr>,
                logres = \<lparr>u = 16, v = 16\<rparr>, rect = Some 0, image = None\<rparr>)"
    by code_simp
  moreover have "block_at \<lparr>blocks = [Some []], avail = 1024\<rparr> 0 = Some []"
    by (simp add: block_at_def)
  moreover have "texel_at [] 4 0 \<noteq> default_texel \<lparr>data_type = MPTEX_DATA_TYPE_UINT8, num_channels = 4\<rparr>"
    by (simp add: texel_at_def default_texel_def)
  ultimately show ?thesis by blast
qed

section \<open>Properties of resizing\<close>



lemma resize_blocks:
  "\<exists>h2 ok. BPX_image_buf_resize resample h (Some d) bpx_src = (h2, ok)
      \<and> (blocks h2 = blocks h \<or> (\<exists>buf. blocks h2 = (blocks h)[buf_data d := Some buf]))"
  by (auto simp: BPX_image_buf_resize_def block_set_def split: option.splits)















section \<open>Properties of the import\<close>

lemma BKE_loop_ptex_init_fields:
  assumes "BKE_loop_ptex_init h lp ti lr = Some (h', lp')"
  shows "logres lp' = lr" "texel_info lp' = ti"
proof -
  let ?c = "ptex_rlog2_valid (u lr) \<and> ptex_rlog2_valid (v lr)
            \<and> num_channels ti \<ge> 1 \<and> num_channels ti \<le> 4"
  have c: ?c
  proof (rule ccontr)
    assume "\<not> ?c"
    then have "BKE_loop_ptex_init h lp ti lr = None"
      by (simp only: BKE_loop_ptex_init_def simp_thms if_True)
    with assms show False by simp
  qed
  let ?lp = "lp\<lparr>texel_info := ti, logres := lr, rect := snd (bke_ptex_texels_malloc h ti lr)\<rparr>"
  have "BKE_loop_ptex_init h lp ti lr =
     (case bke_loop_ptex_fill (fst (bke_ptex_texels_malloc h ti lr)) ?lp default_pixel of
        None \<Rightarrow> None
      | Some hf \<Rightarrow> Some (fst hf, ?lp))"
    using c by (intro BKE_loop_ptex_init_unfold) simp_all
  with assms have "lp' = ?lp"
    by (cases "bke_loop_ptex_fill (fst (bke_ptex_texels_malloc h ti lr)) ?lp default_pixel")
       simp_all
  then show "logres lp' = lr" "texel_info lp' = ti"
    by simp_all
qed

lemma import_quad_init_layer:
  "import_quad_init h layer base ti lr lrt is = Some (h', layer', ds) \<Longrightarrow>
   length layer' = length layer
   \<and> (\<forall>i \<in> set is. 0 \<le> base + int i \<and> base + int i < int (length layer))
   \<and> (\<forall>k. k < length layer \<and> (\<forall>i \<in> set is. k \<noteq> nat (base + int i)) \<longrightarrow>
          layer' ! k = layer ! k)
   \<and> (distinct is \<longrightarrow>
        (\<forall>i \<in> set is. logres (layer' ! nat (base + int i)) = (if i mod 2 = 0 then lr else lrt)
                       \<and> texel_info (layer' ! nat (base + int i)) = ti))"
proof (induction "is" arbitrary: h layer h' layer' ds)
  case Nil
  then show ?case by simp
next
  case (Cons i "is")
  let ?k = "nat (base + int i)"
  from Cons.prems have rng: "0 \<le> base + int i" "base + int i < int (length layer)"
    by (simp_all split: if_splits)
  from Cons.prems rng obtain h1 lp where
    init: "BKE_loop_ptex_init h (layer ! ?k) ti (if i mod 2 = 0 then lr else lrt) = Some (h1, lp)"
    by (auto split: option.splits)
  from Cons.prems rng init obtain d where w: "bpx_image_buf_wrap_loop_ptex lp = Some d"
    by (auto split: option.splits)
  from Cons.prems rng init w obtain ds' where
    rec: "import_quad_init h1 (layer[?k := lp]) base ti lr lrt is = Some (h', layer', ds')"
    by (auto split: option.splits)
  note ih = Cons.IH [OF rec]
  have len: "length layer' = length layer"
    using ih by simp
  have r2: "\<forall>j \<in> set is. 0 \<le> base + int j \<and> base + int j < int (length layer)"
    using ih by simp
  have keep: "layer' ! k = (layer[?k := lp]) ! k"
    if "k < length layer" "\<forall>j \<in> set is. k \<noteq> nat (base + int j)" for k
    using ih that by simp
  have 3: "layer' ! k = layer ! k"
    if "k < length layer" "\<forall>j \<in> set (i # is). k \<noteq> nat (base + int j)" for k
    using keep [of k] that by simp
  have 4: "logres (layer' ! nat (base + int j)) = (if j mod 2 = 0 then lr else lrt)
           \<and> texel_info (layer' ! nat (base + int j)) = ti"
    if d: "distinct (i # is)" and j: "j \<in> set (i # is)" for j
  proof (cases "j = i")
    case True
    have "?k \<noteq> nat (base + int j')" if "j' \<in> set is" for j'
    proof -
      have "j' \<noteq> i" using d that by auto
      moreover have "0 \<le> base + int j'" using r2 that by simp
      ultimately show ?thesis
        using rng(1) by (simp add: eq_nat_nat_iff)
    qed
    then have "\<forall>j' \<in> set is. ?k \<noteq> nat (base + int j')"
      by blast
    then have "layer' ! ?k = lp"
      using keep [of ?k] rng by simp
    then show ?thesis
      using True BKE_loop_ptex_init_fields [OF init] by simp
  next
    case False
    then show ?thesis
      using ih d j by simp
  qed
  show ?case
  proof (intro conjI)
    show "length layer' = length layer" by (rule len)
    show "\<forall>j \<in> set (i # is). 0 \<le> base + int j \<and> base + int j < int (length layer)"
      using rng r2 by simp
    show "\<forall>k. k < length layer \<and> (\<forall>j \<in> set (i # is). k \<noteq> nat (base + int j)) \<longrightarrow>
            layer' ! k = layer ! k"
      using 3 by blast
    show "distinct (i # is) \<longrightarrow>
            (\<forall>j \<in> set (i # is).
               logres (layer' ! nat (base + int j)) = (if j mod 2 = 0 then lr else lrt)
               \<and> texel_info (layer' ! nat (base + int j)) = ti)"
      using 4 by blast
  qed
qed

lemma ilog2_power: "ilog2 (2 ^ k) = k"
proof (induction k)
  case 0
  show ?case by (subst ilog2.simps) simp
next
  case (Suc k)
  have "(2::nat) \<le> 2 ^ Suc k" by simp
  then have "ilog2 (2 ^ Suc k) = Suc (ilog2 (2 ^ Suc k div 2))"
    by (subst ilog2.simps) simp
  then show ?case using Suc by simp
qed

lemma c_log2_power: "c_log2 (2 ^ k) = int k"
proof -
  have n: "nat ((2::int) ^ k) = 2 ^ k"
    by (simp add: nat_power_eq)
  have "\<not> (2::int) ^ k \<le> 0" by simp
  then have "c_log2 (2 ^ k) = int (ilog2 (nat (2 ^ k)))"
    by (simp only: c_log2_def if_False)
  then show ?thesis
    by (simp only: n ilog2_power)
qed

lemma is_power_of_2_i_power: "is_power_of_2_i (2 ^ k)"
proof -
  have "and ((2::int) ^ k) (2 ^ k - 1) = take_bit k (2 ^ k)"
    by (simp add: take_bit_eq_mask mask_eq_exp_minus_1)
  also have "\<dots> = 0"
    by (simp add: take_bit_eq_mod)
  finally show ?thesis by (simp add: is_power_of_2_i_def)
qed

lemma log_res_from_res_power:
  "BKE_ptex_log_res_from_res (2 ^ a) (2 ^ b) = Some \<lparr>u = int a, v = int b\<rparr>"
  by (simp add: BKE_ptex_log_res_from_res_def is_power_of_2_i_power c_log2_power)

lemma mesh_ptex_import_quad_ok:
  assumes "mesh_ptex_import_quad ops h src layer base ti width height = Some (h', layer', True)"
  shows "\<exists>lr0 h1 dst.
           BKE_ptex_log_res_from_res width height = Some lr0
           \<and> import_quad_init h layer base ti (quad_logres lr0 0) (quad_logres lr0 1) [0 ..< 4]
                = Some (h1, layer', dst)"
proof -
  from assms obtain lr0 where l: "BKE_ptex_log_res_from_res width height = Some lr0"
    by (cases "BKE_ptex_log_res_from_res width height")
       (simp_all add: mesh_ptex_import_quad_def)
  from assms l have a: "op_alloc_empty_ok ops"
    by (cases "op_alloc_empty_ok ops") (simp_all add: mesh_ptex_import_quad_def)
  from assms l a obtain all_pixels where r: "op_read ops (in_current src) None = Some all_pixels"
    by (cases "op_read ops (in_current src) None") (simp_all add: mesh_ptex_import_quad_def)
  let ?init = "import_quad_init h layer base ti (quad_logres lr0 0) (quad_logres lr0 1) [0 ..< 4]"
  have unf: "mesh_ptex_import_quad ops h src layer base ti width height =
               (case ?init of
                  None \<Rightarrow> None
                | Some (h1, layer1, dst) \<Rightarrow>
                    let (h2, r) = BPX_image_buf_quad_split ops h1 dst all_pixels
                    in if r then Some (h2, layer1, True) else None)"
    using a l r
    by (cases lr0) (simp add: mesh_ptex_import_quad_def Let_def quad_logres_def)
  from assms obtain h1 layer1 dst where i: "?init = Some (h1, layer1, dst)"
    unfolding unf by (cases ?init) auto
  from assms have "layer1 = layer'"
    unfolding unf i
    by (cases "BPX_image_buf_quad_split ops h1 dst all_pixels") (auto split: if_splits)
  with l i show ?thesis by blast
qed

text \<open>
  Claim C6.  When the inner loop of \<^verbatim>\<open>BKE_ptex_import\<close> runs over a polygon with
  exactly 4 loops and ends without an import error, \<^verbatim>\<open>ptex_face_id\<close> has advanced by
  exactly 1: the polygon has consumed the one subimage sought at the old counter.  The
  four rasters of the polygon have the texel info of the file and the LogRes of that
  subimage lowered by 1 along each axis (where it is at least 1), with \<open>u\<close> and \<open>v\<close>
  exchanged on the odd-indexed rasters; for a subimage of \<open>2 ^ a\<close> by \<open>2 ^ b\<close> texels the
  subimage LogRes is \<open>(a, b)\<close>.  The other rasters of the layer are as before.
\<close>

theorem import_quad_polygon:
  assumes quad: "totloop p = 4"
    and run: "import_poly_loops ops ti p [0 ..< nat (totloop p)] st = Some (st', True)"
  shows "ptex_face_id st' = ptex_face_id st + 1
       \<and> (\<exists>input' width height lr0.
             BPX_image_input_seek_subimage (st_input st) (ptex_face_id st)
               = Some (input', width, height)
             \<and> BKE_ptex_log_res_from_res width height = Some lr0
             \<and> (\<forall>a b. width = 2 ^ a \<and> height = 2 ^ b \<longrightarrow> lr0 = \<lparr>u = int a, v = int b\<rparr>)
             \<and> length (st_layer st') = length (st_layer st)
             \<and> 0 \<le> loopstart p \<and> loopstart p + 4 \<le> int (length (st_layer st))
             \<and> (\<forall>i < 4.
                   logres (st_layer st' ! nat (loopstart p + int i)) = quad_logres lr0 i
                   \<and> texel_info (st_layer st' ! nat (loopstart p + int i)) = ti)
             \<and> (\<forall>k. k < length (st_layer st)
                      \<and> (k < nat (loopstart p) \<or> nat (loopstart p) + 4 \<le> k) \<longrightarrow>
                    st_layer st' ! k = st_layer st ! k))"
proof -
  have js: "[0 ..< nat (totloop p)] = 0 # [1 ..< 4]"
    by (simp add: quad upt_rec)
  from run obtain input' width height where
    seek: "BPX_image_input_seek_subimage (st_input st) (ptex_face_id st)
             = Some (input', width, height)"
    unfolding js
    by (cases "BPX_image_input_seek_subimage (st_input st) (ptex_face_id st)") auto
  let ?q = "mesh_ptex_import_quad ops (st_heap st) input' (st_layer st) (loopstart p) ti
              width height"
  have unf: "import_poly_loops ops ti p [0 ..< nat (totloop p)] st =
               (case ?q of
                  None \<Rightarrow> None
                | Some (h', layer', ok) \<Rightarrow>
                    if \<not> ok then
                      Some (st\<lparr>st_heap := h', st_input := input', st_layer := layer'\<rparr>, False)
                    else
                      Some (st\<lparr>st_heap := h', st_input := input', st_layer := layer',
                               ptex_face_id := ptex_face_id st + 1\<rparr>, True))"
    unfolding js by (simp add: seek quad)
  from run obtain h' layer' where q: "?q = Some (h', layer', True)"
    and st': "st' = st\<lparr>st_heap := h', st_input := input', st_layer := layer',
                        ptex_face_id := ptex_face_id st + 1\<rparr>"
    unfolding unf by (cases ?q) (auto split: if_splits)
  from mesh_ptex_import_quad_ok [OF q] obtain lr0 h1 dst where
    lr0: "BKE_ptex_log_res_from_res width height = Some lr0"
    and init: "import_quad_init (st_heap st) (st_layer st) (loopstart p) ti
                 (quad_logres lr0 0) (quad_logres lr0 1) [0 ..< 4] = Some (h1, layer', dst)"
    by blast
  note il = import_quad_init_layer [OF init]
  have len: "length layer' = length (st_layer st)"
    using il by simp
  have rng: "\<forall>i \<in> set [0 ..< 4]. 0 \<le> loopstart p + int i
               \<and> loopstart p + int i < int (length (st_layer st))"
    using il by blast
  have lo: "0 \<le> loopstart p"
    using rng by (simp add: upt_rec)
  have hi: "loopstart p + 4 \<le> int (length (st_layer st))"
    using rng [rule_format, of 3] by simp
  have lg: "logres (layer' ! nat (loopstart p + int i)) = quad_logres lr0 i
            \<and> texel_info (layer' ! nat (loopstart p + int i)) = ti" if "i < 4" for i
  proof -
    have "distinct [0 ..< (4::nat)]" by simp
    with il have "\<forall>j \<in> set [0 ..< 4].
        logres (layer' ! nat (loopstart p + int j))
          = (if j mod 2 = 0 then quad_logres lr0 0 else quad_logres lr0 1)
        \<and> texel_info (layer' ! nat (loopstart p + int j)) = ti"
      by blast
    then have "logres (layer' ! nat (loopstart p + int i))
          = (if i mod 2 = 0 then quad_logres lr0 0 else quad_logres lr0 1)
        \<and> texel_info (layer' ! nat (loopstart p + int i)) = ti"
      using that by simp
    moreover have "(if i mod 2 = 0 then quad_logres lr0 0 else quad_logres lr0 1)
                     = quad_logres lr0 i"
      by (simp add: quad_logres_def Let_def even_iff_mod_2_eq_zero)
    ultimately show ?thesis by simp
  qed
  have keep: "layer' ! k = st_layer st ! k"
    if "k < length (st_layer st)" "k < nat (loopstart p) \<or> nat (loopstart p) + 4 \<le> k" for k
  proof -
    have "k \<noteq> nat (loopstart p + int i)" if "i \<in> set [0 ..< 4]" for i
      using that \<open>k < nat (loopstart p) \<or> nat (loopstart p) + 4 \<le> k\<close> lo
      by (auto simp: nat_add_distrib)
    then show ?thesis
      using il that(1) by blast
  qed
  have pw: "lr0 = \<lparr>u = int a, v = int b\<rparr>" if "width = 2 ^ a \<and> height = 2 ^ b" for a b
    using lr0 that by (simp add: log_res_from_res_power)
  show ?thesis
    using seek lr0 len lo hi lg keep pw by (simp add: st')
qed

lemma import_quad_eval:
  "import_poly_loops test_ops \<lparr>data_type = MPTEX_DATA_TYPE_UINT8, num_channels = 4\<rparr>
     \<lparr>loopstart = 0, totloop = 4\<rparr> [0 ..< 4]
     \<lparr>st_heap = empty_store, st_input = file_4x2,
      st_layer = replicate 4 loop_ptex_zero, ptex_face_id = 0\<rparr>
   = Some (\<lparr>st_heap =
              \<lparr>blocks = replicate 4 (Some (replicate 8 (U8 9))), avail = 992\<rparr>,
            st_input = file_4x2,
            st_layer =
              [\<lparr>texel_info = \<lparr>data_type = MPTEX_DATA_TYPE_UINT8, num_channels = 4\<rparr>,
                logres = \<lparr>u = 1, v = 0\<rparr>, rect = Some 0, image = None\<rparr>,
               \<lparr>texel_info = \<lparr>data_type = MPTEX_DATA_TYPE_UINT8, num_channels = 4\<rparr>,
                logres = \<lparr>u = 0, v = 1\<rparr>, rect = Some 1, image = None\<rparr>,
               \<lparr>texel_info = \<lparr>data_type = MPTEX_DATA_TYPE_UINT8, num_channels = 4\<rparr>,
                logres = \<lparr>u = 1, v = 0\<rparr>, rect = Some 2, image = None\<rparr>,
               \<lparr>texel_info = \<lparr>data_type = MPTEX_DATA_TYPE_UINT8, num_channels = 4\<rparr>,
                logres = \<lparr>u = 0, v = 1\<rparr>, rect = Some 3, image = None\<rparr>],
            ptex_face_id = 1\<rparr>, True)"
  by code_simp

theorem import_quad_polygon_witness:
  "totloop \<lparr>loopstart = 0, totloop = 4\<rparr> = 4
   \<and> (\<exists>st'. import_poly_loops test_ops \<lparr>data_type = MPTEX_DATA_TYPE_UINT8, num_channels = 4\<rparr>
               \<lparr>loopstart = 0, totloop = 4\<rparr> [0 ..< nat (totloop \<lparr>loopstart = 0, totloop = 4\<rparr>)]
               \<lparr>st_heap = empty_store, st_input = file_4x2,
                st_layer = replicate 4 loop_ptex_zero, ptex_face_id = 0\<rparr> = Some (st', True)
          \<and> ptex_face_id st' = 1
          \<and> map logres (st_layer st')
               = [\<lparr>u = 1, v = 0\<rparr>, \<lparr>u = 0, v = 1\<rparr>, \<lparr>u = 1, v = 0\<rparr>, \<lparr>u = 0, v = 1\<rparr>])
   \<and> BPX_image_input_seek_subimage file_4x2 0 = Some (file_4x2, 4, 2)
   \<and> BKE_ptex_log_res_from_res 4 2 = Some \<lparr>u = 2, v = 1\<rparr>"
proof -
  let ?p = "\<lparr>loopstart = 0, totloop = 4\<rparr>"
  have q: "totloop ?p = 4" by simp
  have n: "[0 ..< nat (totloop ?p)] = [0 ..< 4]" by simp
  have sk: "BPX_image_input_seek_subimage file_4x2 0 = Some (file_4x2, 4, 2)"
    by (simp add: BPX_image_input_seek_subimage_def file_4x2_def)
  have lg: "BKE_ptex_log_res_from_res 4 2 = Some \<lparr>u = 2, v = 1\<rparr>"
    using log_res_from_res_power [of 2 1] by simp
  show ?thesis
    using import_quad_polygon [OF q import_quad_eval [folded n]] import_quad_eval [folded n] sk lg
    by simp
qed

text \<open>
  Claim C1 at a mesh of two triangles and a file with a single subimage.  The first
  loop is imported from subimage 0; the seek of subimage 1 for the second loop fails.
  \<^verbatim>\<open>BKE_ptex_import\<close> ends its loops there and returns true; the layer it added stays
  on the mesh, with the first raster allocated and filled and the five others zeroed,
  and the buffer of the first raster stays allocated.
\<close>

theorem import_failure_keeps_layer:
  "BPX_image_input_seek_subimage file_2x2 0 = Some (file_2x2, 2, 2)
   \<and> BPX_image_input_seek_subimage file_2x2 1 = None
   \<and> ldata tri_mesh = []
   \<and> BKE_ptex_import test_ops empty_store tri_mesh ''/tmp/t.ptx'' (Some file_2x2)
      = Some (\<lparr>blocks = [Some [U8 9, U8 9, U8 9, U8 9]], avail = 1020\<rparr>,
              tri_mesh\<lparr>ldata :=
                [\<lparr>layer_name = ''t.ptx'',
                  layer_data =
                    [\<lparr>texel_info = \<lparr>data_type = MPTEX_DATA_TYPE_UINT8, num_channels = 1\<rparr>,
                      logres = \<lparr>u = 1, v = 1\<rparr>, rect = Some 0, image = None\<rparr>,
                     loop_ptex_zero, loop_ptex_zero, loop_ptex_zero, loop_ptex_zero,
                     loop_ptex_zero]\<rparr>]\<rparr>,
              True)"
  by code_simp

end
